theory Spec2Isabelle
  imports Main "HOL-Library.AList" "HOL-Library.Multiset"
begin

section \<open>Data model of the user-id keyed server\<close>

text \<open>
  The server with the \<open>users\<close> table, the \<open>onlineUsers\<close> map and the capped
  \<open>globalMessages\<close> array is embedded handler by handler.  Times are milliseconds since
  the epoch as \<open>int\<close>; one clock value \<open>now\<close> stands for \<open>Date.now()\<close>, \<open>new Date()\<close>
  and the store's \<open>NOW()\<close> of one request.  Identifiers, nicknames and message bodies are
  strings.  The two tables are lists of rows in insertion order.
\<close>

record user =
  user_id :: string
  nickname :: string
  change_timestamps :: "int list"
  last_seen :: int

record direct_message =
  dm_id :: nat
  sender_id :: string
  receiver_id :: string
  dm_message :: string
  dm_type :: string
  dm_timestamp :: int

text \<open>A value of the \<open>onlineUsers\<close> map: \<open>{ nickname, socketId }\<close>.\<close>

record online_info =
  info_nickname :: string
  socketId :: string

text \<open>The object \<open>messageData\<close> built by \<open>global_message\<close>.\<close>

record global_message_data =
  gm_id :: int
  senderId :: string
  senderNickname :: string
  gm_message :: string
  gm_type :: string
  gm_timestamp :: int

text \<open>A row of the joined thread query of \<open>load_dms\<close>.\<close>

record dm_row =
  row_id :: nat
  row_message :: string
  row_type :: string
  row_timestamp :: int
  sender_nickname :: string
  receiver_nickname :: string

text \<open>
  The process state: the two tables, the sequence behind \<open>id SERIAL\<close>, and the two
  module-level variables.  \<open>onlineUsers\<close> is a JavaScript \<open>Map\<close>, which keeps keys in
  insertion order; \<open>AList.update\<close> overwrites in place or appends, as \<open>Map.set\<close> does.
\<close>

record server =
  users :: "user list"
  direct_messages :: "direct_message list"
  dm_serial :: nat
  globalMessages :: "global_message_data list"
  onlineUsers :: "(string \<times> online_info) list"

definition initial_server :: server where
  "initial_server =
     \<lparr>users = [], direct_messages = [], dm_serial = 0, globalMessages = [], onlineUsers = []\<rparr>"

text \<open>
  The human-readable failure texts of the source are Korean sentences; each is one
  constructor here, named after what the sentence says.
\<close>

datatype failure =
    Not_authenticated      \<comment> \<open>change_nickname, session without identity\<close>
  | Rate_limited           \<comment> \<open>at most two changes per window\<close>
  | Nickname_taken         \<comment> \<open>change_nickname, nickname already in use\<close>
  | Change_error           \<comment> \<open>change_nickname, catch block\<close>
  | Nickname_in_use        \<comment> \<open>user_connect, nickname already in use\<close>
  | Connect_error          \<comment> \<open>user_connect, catch block\<close>
  | Dm_receiver_missing    \<comment> \<open>send_dm, no user with that nickname\<close>
  | Dm_server_error        \<comment> \<open>send_dm, catch block\<close>

datatype reply =
    Failed failure                 \<comment> \<open>\<open>{ success: false, message }\<close>\<close>
  | Succeeded user                 \<comment> \<open>\<open>{ success: true, user }\<close>\<close>
  | Partners "string list"         \<comment> \<open>the array passed by get_dm_partners\<close>

datatype event =
    Force_nickname_update string
  | Online_users_update "string list"
  | Load_global_messages "global_message_data list"
  | Nickname_changed string string
  | New_global_message global_message_data
  | Global_message_deleted int
  | Loaded_dms string "dm_row list"
  | Dm_send_failed failure
  | New_dm direct_message string string
  | Dm_deleted nat

datatype emission =
    Socket_emit event        \<comment> \<open>\<open>socket.emit\<close>: to the requesting connection\<close>
  | Io_emit event            \<comment> \<open>\<open>io.emit\<close>: to every connection\<close>
  | Io_to string event       \<comment> \<open>\<open>io.to(socketId).emit\<close>\<close>
  | Callback reply           \<comment> \<open>the acknowledgement callback of the request\<close>

text \<open>
  A client-supplied identity field: absent, \<open>null\<close>, or a string.  The session variable
  \<open>currentUserId\<close> is \<open>null\<close> (\<open>None\<close>) or a string; \<open>===\<close> compares them.
\<close>

datatype js_id = Undefined | Null | Id string

fun strict_eq :: "string option \<Rightarrow> js_id \<Rightarrow> bool" where
  "strict_eq None Null = True"
| "strict_eq (Some u) (Id v) = (u = v)"
| "strict_eq _ _ = False"

text \<open>\<open>type || 'text'\<close> for an optional string.\<close>

definition or_text :: "string option \<Rightarrow> string" where
  "or_text t = (case t of None \<Rightarrow> ''text'' | Some x \<Rightarrow> if x = [] then ''text'' else x)"

section \<open>Store queries\<close>

text \<open>
  Every \<open>pool.query\<close> is a function of the tables.  A request carries \<open>fault\<close>: the
  ordinal, in execution order, of the store round trip of this request that rejects
  (\<open>None\<close>: none does), and the ranks by which the store orders the rows of the two
  queries that have no complete \<open>ORDER BY\<close>.  A rejected statement changes no table.  In the handlers below
  a request runs without another one in between; the section on the rename handler
  lifts that for \<open>change_nickname\<close>.
\<close>

definition select_user :: "user list \<Rightarrow> string \<Rightarrow> user option" where
  "select_user us uid = find (\<lambda>u. user_id u = uid) us"

text \<open>The nickname the \<open>users\<close> table holds for a user id at the moment of a query.\<close>

definition current_nickname :: "user list \<Rightarrow> string \<Rightarrow> string option" where
  "current_nickname us uid = map_option nickname (select_user us uid)"

definition select_by_nickname :: "user list \<Rightarrow> string \<Rightarrow> user option" where
  "select_by_nickname us nick = find (\<lambda>u. nickname u = nick) us"

definition nickname_taken_by_other :: "user list \<Rightarrow> string \<Rightarrow> string \<Rightarrow> bool" where
  "nickname_taken_by_other us nick uid =
     list_ex (\<lambda>u. nickname u = nick \<and> user_id u \<noteq> uid) us"

definition nickname_exists :: "user list \<Rightarrow> string \<Rightarrow> bool" where
  "nickname_exists us nick = list_ex (\<lambda>u. nickname u = nick) us"

definition update_user :: "(user \<Rightarrow> user) \<Rightarrow> string \<Rightarrow> user list \<Rightarrow> user list" where
  "update_user f uid us = map (\<lambda>u. if user_id u = uid then f u else u) us"

text \<open>
  The store answers a query without a complete \<open>ORDER BY\<close> in an order of its own
  choice, which may differ from one execution to the next.  That choice is a parameter
  of the execution: a rank on the rows.  Rows are put in the order of their rank; rows
  of equal rank stay as the table has them.  For rows that are pairwise different,
  every order arises from some rank, which is proved below.
\<close>

text \<open>
  The thread query of \<open>load_dms\<close>: \<open>direct_messages\<close> joined with \<open>users\<close> twice and
  the pair condition give the rows; \<open>ORDER BY timestamp\<close> puts them in ascending
  timestamp order and leaves the order of rows with equal timestamps to the store
  (\<open>tie\<close>).
\<close>

definition thread_rows ::
  "user list \<Rightarrow> direct_message list \<Rightarrow> string \<Rightarrow> string \<Rightarrow> dm_row list" where
  "thread_rows us dms p1 p2 =
       [\<lparr>row_id = dm_id dm, row_message = dm_message dm, row_type = dm_type dm,
         row_timestamp = dm_timestamp dm,
         sender_nickname = nickname sender, receiver_nickname = nickname receiver\<rparr>.
        dm \<leftarrow> dms,
        sender \<leftarrow> us, sender_id dm = user_id sender,
        receiver \<leftarrow> us, receiver_id dm = user_id receiver,
        (sender_id dm = p1 \<and> receiver_id dm = p2) \<or> (sender_id dm = p2 \<and> receiver_id dm = p1)]"

definition thread_query ::
  "(dm_row \<Rightarrow> nat) \<Rightarrow> user list \<Rightarrow> direct_message list \<Rightarrow> string \<Rightarrow> string \<Rightarrow> dm_row list" where
  "thread_query tie us dms p1 p2 =
     sort_key row_timestamp (sort_key tie (thread_rows us dms p1 p2))"

text \<open>
  The query of \<open>get_dm_partners\<close>: \<open>SELECT DISTINCT nickname FROM users WHERE user_id IN
  (receivers of p's messages UNION senders of messages to p)\<close>.  It has no \<open>ORDER BY\<close>:
  the order of the nicknames is the store's (\<open>rank\<close>).
\<close>

definition partner_query ::
  "(string \<Rightarrow> nat) \<Rightarrow> user list \<Rightarrow> direct_message list \<Rightarrow> string \<Rightarrow> string list" where
  "partner_query rank us dms p =
     sort_key rank
       (remdups [nickname u. u \<leftarrow> us,
          user_id u \<in> set ([receiver_id d. d \<leftarrow> dms, sender_id d = p] @
                              [sender_id d. d \<leftarrow> dms, receiver_id d = p])])"

text \<open>The position of the first occurrence of a row in a list: the rank that yields that list.\<close>

fun rank_in :: "'a list \<Rightarrow> 'a \<Rightarrow> nat" where
  "rank_in [] x = 0"
| "rank_in (y # ys) x = (if x = y then 0 else Suc (rank_in ys x))"

section \<open>Event handlers\<close>

text \<open>
  Each handler takes the connection's \<open>socket.id\<close> where it uses it, the request's
  \<open>fault\<close> and clock where it has them, the payload, the session variable
  \<open>currentUserId\<close> and the process state; it returns the new state and the emissions in
  program order.  Only \<open>user_connect\<close> assigns \<open>currentUserId\<close>.  The guard
  \<open>!currentUserId\<close> holds for \<open>null\<close> and for the empty string.
\<close>

text \<open>The tail of \<open>user_connect\<close> after the row is settled: bind, join, broadcast, reply, replay.\<close>

definition admit ::
  "string \<Rightarrow> string \<Rightarrow> user \<Rightarrow> emission list \<Rightarrow> server \<Rightarrow> server \<times> string option \<times> emission list" where
  "admit sock userId usr pre s =
     (let online' = AList.update userId \<lparr>info_nickname = nickname usr, socketId = sock\<rparr> (onlineUsers s)
      in (s\<lparr>onlineUsers := online'\<rparr>, Some userId,
          pre @ [Io_emit (Online_users_update (map fst online')),
                 Callback (Succeeded usr),
                 Socket_emit (Load_global_messages (globalMessages s))]))"

text \<open>
  The \<open>UPDATE users SET nickname = $1, last_seen = NOW()\<close> of the existing-user branch;
  \<open>failed\<close> says that this round trip rejects.
\<close>

definition reconcile ::
  "string \<Rightarrow> bool \<Rightarrow> int \<Rightarrow> string \<Rightarrow> string \<Rightarrow> user \<Rightarrow> emission list \<Rightarrow> string option \<Rightarrow> server
     \<Rightarrow> server \<times> string option \<times> emission list" where
  "reconcile sock failed now userId nick usr pre cu s =
     (if failed then (s, cu, pre @ [Callback (Failed Connect_error)])
      else admit sock userId (usr\<lparr>nickname := nick\<rparr>) pre
             (s\<lparr>users := update_user (\<lambda>u. u\<lparr>nickname := nick, last_seen := now\<rparr>) userId (users s)\<rparr>))"

definition user_connect ::
  "string \<Rightarrow> nat option \<Rightarrow> int \<Rightarrow> string \<Rightarrow> string \<Rightarrow> string option \<Rightarrow> server
     \<Rightarrow> server \<times> string option \<times> emission list" where
  "user_connect sock fault now userId nick cu s =
     (if fault = Some 1 then (s, cu, [Callback (Failed Connect_error)])
      else case select_user (users s) userId of
        Some usr \<Rightarrow>
          (if nickname usr \<noteq> nick then
             (if fault = Some 2 then (s, cu, [Callback (Failed Connect_error)])
              else if nickname_taken_by_other (users s) nick userId then
                reconcile sock (fault = Some 3) now userId (nickname usr) usr
                  [Socket_emit (Force_nickname_update (nickname usr))] cu s
              else reconcile sock (fault = Some 3) now userId nick usr [] cu s)
           else reconcile sock (fault = Some 2) now userId nick usr [] cu s)
      | None \<Rightarrow>
          (if fault = Some 2 then (s, cu, [Callback (Failed Connect_error)])
           else if nickname_exists (users s) nick then (s, cu, [Callback (Failed Nickname_in_use)])
           else if fault = Some 3 then (s, cu, [Callback (Failed Connect_error)])
           else
             (let newUser = \<lparr>user_id = userId, nickname = nick, change_timestamps = [], last_seen = now\<rparr>
              in admit sock userId newUser [] (s\<lparr>users := users s @ [newUser]\<rparr>))))"

definition get_dm_partners ::
  "nat option \<Rightarrow> (string \<Rightarrow> nat) \<Rightarrow> string option \<Rightarrow> server \<Rightarrow> server \<times> emission list" where
  "get_dm_partners fault rank cu s =
     (case cu of
        None \<Rightarrow> (s, [Callback (Partners [])])
      | Some uid \<Rightarrow>
          if uid = [] then (s, [Callback (Partners [])])
          else if fault = Some 1 then (s, [Callback (Partners [])])
          else (s, [Callback (Partners (partner_query rank (users s) (direct_messages s) uid))]))"

definition oneWeek :: int where
  "oneWeek = 7 * 24 * 60 * 60 * 1000"

text \<open>
  \<open>change_nickname\<close> as one step: the handler when nothing else runs between its
  \<open>await\<close>s.  It is given turn by turn in the next section.
\<close>

definition change_nickname ::
  "string \<Rightarrow> nat option \<Rightarrow> int \<Rightarrow> string \<Rightarrow> string option \<Rightarrow> server \<Rightarrow> server \<times> emission list" where
  "change_nickname sock fault now newNickname cu s =
     (case cu of
        None \<Rightarrow> (s, [Callback (Failed Not_authenticated)])
      | Some uid \<Rightarrow>
          if uid = [] then (s, [Callback (Failed Not_authenticated)])
          else if fault = Some 1 then (s, [Callback (Failed Change_error)])
          else (case select_user (users s) uid of
            None \<Rightarrow> (s, [Callback (Failed Change_error)])
          | Some row \<Rightarrow>
              (let oldNickname = nickname row;
                   timestamps = change_timestamps row;
                   oneWeekAgo = now - oneWeek;
                   recentChanges = filter (\<lambda>ts. ts > oneWeekAgo) timestamps
               in if length recentChanges \<ge> 2 then (s, [Callback (Failed Rate_limited)])
                  else if fault = Some 2 then (s, [Callback (Failed Change_error)])
                  else if nickname_taken_by_other (users s) newNickname uid
                    then (s, [Callback (Failed Nickname_taken)])
                  else if fault = Some 3 then (s, [Callback (Failed Change_error)])
                  else
                    (let users' = update_user
                           (\<lambda>u. u\<lparr>nickname := newNickname,
                                  change_timestamps := change_timestamps u @ [now]\<rparr>) uid (users s)
                     in case select_user users' uid of
                          None \<Rightarrow> (s, [Callback (Failed Change_error)])
                        | Some updatedUser \<Rightarrow>
                            (let online' = AList.update uid
                                   \<lparr>info_nickname = nickname updatedUser, socketId = sock\<rparr> (onlineUsers s)
                             in (s\<lparr>users := users', onlineUsers := online'\<rparr>,
                                 [Io_emit (Nickname_changed oldNickname newNickname),
                                  Io_emit (Online_users_update (map fst online')),
                                  Callback (Succeeded updatedUser)]))))))"

definition global_message ::
  "int \<Rightarrow> string \<Rightarrow> string option \<Rightarrow> string option \<Rightarrow> server \<Rightarrow> server \<times> emission list" where
  "global_message now data_message data_type cu s =
     (case cu of
        None \<Rightarrow> (s, [])
      | Some uid \<Rightarrow>
          if uid = [] then (s, [])
          else (case map_of (onlineUsers s) uid of
            None \<Rightarrow> (s, [])
          | Some senderInfo \<Rightarrow>
              (let messageData =
                     \<lparr>gm_id = now, senderId = uid, senderNickname = info_nickname senderInfo,
                      gm_message = data_message, gm_type = or_text data_type, gm_timestamp = now\<rparr>;
                   pushed = globalMessages s @ [messageData];
                   shifted = (if length pushed > 100 then tl pushed else pushed)
               in (s\<lparr>globalMessages := shifted\<rparr>, [Io_emit (New_global_message messageData)]))))"

definition delete_global_message ::
  "int \<Rightarrow> js_id \<Rightarrow> string option \<Rightarrow> server \<Rightarrow> server \<times> emission list" where
  "delete_global_message messageId payloadSenderId cu s =
     (if strict_eq cu payloadSenderId then
        (let initialLength = length (globalMessages s);
             filtered = filter (\<lambda>msg. gm_id msg \<noteq> messageId) (globalMessages s)
         in (s\<lparr>globalMessages := filtered\<rparr>,
             if length filtered < initialLength then [Io_emit (Global_message_deleted messageId)]
             else []))
      else (s, []))"

definition load_dms ::
  "nat option \<Rightarrow> (dm_row \<Rightarrow> nat) \<Rightarrow> string \<Rightarrow> string option \<Rightarrow> server
     \<Rightarrow> server \<times> emission list" where
  "load_dms fault tie targetNickname cu s =
     (case cu of
        None \<Rightarrow> (s, [])
      | Some uid \<Rightarrow>
          if uid = [] then (s, [])
          else if fault = Some 1 then (s, [])
          else (case select_by_nickname (users s) targetNickname of
            None \<Rightarrow> (s, [Socket_emit (Loaded_dms targetNickname [])])
          | Some target \<Rightarrow>
              if fault = Some 2 then (s, [])
              else (s, [Socket_emit (Loaded_dms targetNickname
                          (thread_query tie (users s) (direct_messages s) uid (user_id target)))])))"

text \<open>
  \<open>send_dm\<close>: the store refuses the \<open>INSERT\<close> when the sender has no row in \<open>users\<close>
  (the foreign key); the value drawn from the sequence of \<open>id SERIAL\<close> is spent all the
  same.  When the sender has no presence entry, \<open>senderInfo.nickname\<close> throws after the
  row is stored, and the catch block reports a failure.
\<close>

definition send_dm ::
  "nat option \<Rightarrow> int \<Rightarrow> string \<Rightarrow> string \<Rightarrow> string option \<Rightarrow> string option \<Rightarrow> server
     \<Rightarrow> server \<times> emission list" where
  "send_dm fault now receiverNickname body kind cu s =
     (case cu of
        None \<Rightarrow> (s, [])
      | Some uid \<Rightarrow>
          if uid = [] then (s, [])
          else if fault = Some 1 then (s, [Socket_emit (Dm_send_failed Dm_server_error)])
          else (case select_by_nickname (users s) receiverNickname of
            None \<Rightarrow> (s, [Socket_emit (Dm_send_failed Dm_receiver_missing)])
          | Some receiver \<Rightarrow>
              if fault = Some 2 then (s, [Socket_emit (Dm_send_failed Dm_server_error)])
              else if select_user (users s) uid = None
                then (s\<lparr>dm_serial := Suc (dm_serial s)\<rparr>,
                      [Socket_emit (Dm_send_failed Dm_server_error)])
              else
                (let stored = \<lparr>dm_id = Suc (dm_serial s), sender_id = uid,
                               receiver_id = user_id receiver, dm_message = body,
                               dm_type = or_text kind, dm_timestamp = now\<rparr>;
                     s' = s\<lparr>direct_messages := direct_messages s @ [stored],
                            dm_serial := Suc (dm_serial s)\<rparr>
                 in case map_of (onlineUsers s) uid of
                      None \<Rightarrow> (s', [Socket_emit (Dm_send_failed Dm_server_error)])
                    | Some senderInfo \<Rightarrow>
                        (let newDM = New_dm stored (info_nickname senderInfo) receiverNickname
                         in (s', Socket_emit newDM #
                               (case find (\<lambda>entry. info_nickname (snd entry) = receiverNickname)
                                       (onlineUsers s) of
                                  None \<Rightarrow> []
                                | Some receiverSocketInfo \<Rightarrow>
                                    if socketId (snd receiverSocketInfo) \<noteq> []
                                    then [Io_to (socketId (snd receiverSocketInfo)) newDM]
                                    else []))))))"

definition delete_dm ::
  "nat option \<Rightarrow> nat \<Rightarrow> string option \<Rightarrow> server \<Rightarrow> server \<times> emission list" where
  "delete_dm fault messageId cu s =
     (case cu of
        None \<Rightarrow> (s, [])
      | Some uid \<Rightarrow>
          if uid = [] then (s, [])
          else if fault = Some 1 then (s, [])
          else
            (let hit = (\<lambda>d. dm_id d = messageId \<and> (sender_id d = uid \<or> receiver_id d = uid))
             in case find hit (direct_messages s) of
                  None \<Rightarrow> (s, [])
                | Some row \<Rightarrow>
                    (s\<lparr>direct_messages := filter (\<lambda>d. \<not> hit d) (direct_messages s)\<rparr>,
                     (case map_of (onlineUsers s) (sender_id row) of
                        None \<Rightarrow> []
                      | Some senderInfo \<Rightarrow> [Io_to (socketId senderInfo) (Dm_deleted messageId)]) @
                     (case map_of (onlineUsers s) (receiver_id row) of
                        None \<Rightarrow> []
                      | Some receiverInfo \<Rightarrow>
                          if receiver_id row \<noteq> sender_id row
                          then [Io_to (socketId receiverInfo) (Dm_deleted messageId)]
                          else []))))"

definition disconnect :: "string option \<Rightarrow> server \<Rightarrow> server \<times> emission list" where
  "disconnect cu s =
     (case cu of
        None \<Rightarrow> (s, [])
      | Some uid \<Rightarrow>
          if uid = [] then (s, [])
          else
            (let online' = AList.delete uid (onlineUsers s)
             in (s\<lparr>onlineUsers := online'\<rparr>, [Io_emit (Online_users_update (map fst online'))])))"

section \<open>The rename handler turn by turn\<close>

text \<open>
  \<open>change_nickname\<close> suspends at each of its three \<open>await\<close>s, and no transaction spans
  them: turns of other requests, and statements of other requests at the store, may run
  in between.  The handler is therefore also given in its pieces.  Each piece is what
  happens at one point in time: the answer of the store to one statement together with
  the synchronous code that follows it, up to the next \<open>await\<close> or the end.  The
  \<open>UPDATE\<close> at the store and the code that resumes after it are two pieces, since the
  first writes the table and the second writes \<open>onlineUsers\<close>.  Each piece has its own
  clock value.  The definition \<open>change_nickname\<close> above is the four pieces run back to
  back at one clock value, which is proved below.
\<close>







section \<open>Connections and requests\<close>

text \<open>
  The process as a whole: the shared state and, for every live connection, its closure
  variable \<open>currentUserId\<close>.  A connection starts with \<open>currentUserId = null\<close>; the
  transport delivers an event only to the handlers of a live connection, and a
  disconnected one receives nothing more.
\<close>

datatype request =
    Connection
  | User_connect string string
  | Get_dm_partners
  | Change_nickname string
  | Global_message string "string option"
  | Delete_global_message int js_id
  | Load_dms string
  | Send_dm string string "string option"
  | Delete_dm nat
  | Disconnect

text \<open>
  An input is one event on one connection together with what the store does while the
  event is handled: the ordinal of the round trip that it rejects, if any, the clock,
  and its choice of order for the thread query and for the partner query.  \<open>run\<close>
  handles the events one after another, each handler to its end.
\<close>

record input =
  in_socket :: string
  in_fault :: "nat option"
  in_now :: int
  in_request :: request
  in_tie :: "dm_row \<Rightarrow> nat"
  in_rank :: "string \<Rightarrow> nat"

record system =
  srv :: server
  sessions :: "string \<Rightarrow> string option option"

definition initial_system :: system where
  "initial_system = \<lparr>srv = initial_server, sessions = (\<lambda>sock. None)\<rparr>"

definition keep :: "string option \<Rightarrow> server \<times> emission list \<Rightarrow> server \<times> string option \<times> emission list" where
  "keep cu r = (fst r, cu, snd r)"

fun handle ::
  "string \<Rightarrow> nat option \<Rightarrow> (dm_row \<Rightarrow> nat) \<Rightarrow> (string \<Rightarrow> nat) \<Rightarrow> int \<Rightarrow> request
     \<Rightarrow> string option \<Rightarrow> server
     \<Rightarrow> server \<times> string option \<times> emission list" where
  "handle sock fault tie rank now Connection cu s = (s, cu, [])"
| "handle sock fault tie rank now (User_connect userId nick) cu s = user_connect sock fault now userId nick cu s"
| "handle sock fault tie rank now Get_dm_partners cu s = keep cu (get_dm_partners fault rank cu s)"
| "handle sock fault tie rank now (Change_nickname newNickname) cu s =
     keep cu (change_nickname sock fault now newNickname cu s)"
| "handle sock fault tie rank now (Global_message body kind) cu s = keep cu (global_message now body kind cu s)"
| "handle sock fault tie rank now (Delete_global_message messageId payloadSenderId) cu s =
     keep cu (delete_global_message messageId payloadSenderId cu s)"
| "handle sock fault tie rank now (Load_dms targetNickname) cu s = keep cu (load_dms fault tie targetNickname cu s)"
| "handle sock fault tie rank now (Send_dm receiverNickname body kind) cu s =
     keep cu (send_dm fault now receiverNickname body kind cu s)"
| "handle sock fault tie rank now (Delete_dm messageId) cu s = keep cu (delete_dm fault messageId cu s)"
| "handle sock fault tie rank now Disconnect cu s = keep cu (disconnect cu s)"

definition step :: "system \<Rightarrow> input \<Rightarrow> system \<times> emission list" where
  "step sys i =
     (case sessions sys (in_socket i) of
        None \<Rightarrow>
          (if in_request i = Connection
           then (sys\<lparr>sessions := (sessions sys)(in_socket i := Some None)\<rparr>, [])
           else (sys, []))
      | Some cu \<Rightarrow>
          (case handle (in_socket i) (in_fault i) (in_tie i) (in_rank i) (in_now i) (in_request i) cu
                  (srv sys) of
             (s', cu', out) \<Rightarrow>
               (\<lparr>srv = s',
                 sessions = (sessions sys)
                   (in_socket i := (if in_request i = Disconnect then None else Some cu'))\<rparr>,
                out)))"

fun run :: "system \<Rightarrow> input list \<Rightarrow> system" where
  "run sys [] = sys"
| "run sys (i # rest) = run (fst (step sys i)) rest"

text \<open>A burst of \<open>global_message\<close> events of one connection: clock, body and kind of each.\<close>

fun global_messages ::
  "(int \<times> string \<times> string option) list \<Rightarrow> string option \<Rightarrow> server \<Rightarrow> server" where
  "global_messages [] cu s = s"
| "global_messages (m # rest) cu s =
     global_messages rest cu (fst (global_message (fst m) (fst (snd m)) (snd (snd m)) cu s))"

text \<open>The object the \<open>k\<close>-th event of such a burst appends, for a sender with a presence entry.\<close>

definition message_of :: "string \<Rightarrow> string \<Rightarrow> int \<times> string \<times> string option \<Rightarrow> global_message_data" where
  "message_of uid nick m =
     \<lparr>gm_id = fst m, senderId = uid, senderNickname = nick, gm_message = fst (snd m),
      gm_type = or_text (snd (snd m)), gm_timestamp = fst m\<rparr>"

text \<open>
  The constraints that the schema declares: \<open>user_id\<close> is the primary key of \<open>users\<close>,
  and \<open>sender_id\<close> and \<open>receiver_id\<close> of a direct message reference rows of \<open>users\<close>.
\<close>

definition store_consistent :: "server \<Rightarrow> bool" where
  "store_consistent s =
     (distinct (map user_id (users s)) \<and>
      list_all (\<lambda>d. sender_id d \<in> user_id ` set (users s) \<and> receiver_id d \<in> user_id ` set (users s))
        (direct_messages s))"

section \<open>The two-week draft of the rename handler\<close>

text \<open>
  The second server in the source keeps only the \<open>users\<close> table, with a
  \<open>previous_nickname\<close> column, and relays chat messages; its \<open>change_nickname\<close> takes
  the user id in the payload, refuses a nickname equal to the current one, and counts
  changes over 14 days.  A payload field that is absent or empty is the empty string.
\<close>

record draft_user =
  draft_user_id :: string
  draft_nickname :: string
  previous_nickname :: "string option"
  draft_change_timestamps :: "int list"

datatype draft_failure =
    Draft_missing_fields
  | Draft_bad_request
  | Draft_user_not_found
  | Draft_nickname_unchanged
  | Draft_rate_limited
  | Draft_nickname_taken
  | Draft_change_error

datatype draft_emission =
    Draft_failed draft_failure               \<comment> \<open>\<open>callback({ success: false, message })\<close>\<close>
  | Draft_succeeded "draft_user option"      \<comment> \<open>\<open>callback({ success: true, user: rows[0] })\<close>\<close>
  | Draft_user_renamed string string         \<comment> \<open>\<open>io.emit('user_renamed', { oldNick, newNick })\<close>\<close>

definition twoWeeks :: int where
  "twoWeeks = 14 * 24 * 60 * 60 * 1000"

definition draft_select_user :: "draft_user list \<Rightarrow> string \<Rightarrow> draft_user option" where
  "draft_select_user us uid = find (\<lambda>u. draft_user_id u = uid) us"

definition draft_change_nickname ::
  "nat option \<Rightarrow> int \<Rightarrow> string \<Rightarrow> string \<Rightarrow> string option \<Rightarrow> draft_user list
     \<Rightarrow> draft_user list \<times> draft_emission list" where
  "draft_change_nickname fault now userId newNickname cu us =
     (if userId = [] \<or> newNickname = [] then (us, [Draft_failed Draft_missing_fields])
      else if Some userId \<noteq> cu then (us, [Draft_failed Draft_bad_request])
      else if fault = Some 1 then (us, [Draft_failed Draft_change_error])
      else (case draft_select_user us userId of
        None \<Rightarrow> (us, [Draft_failed Draft_user_not_found])
      | Some currentUserData \<Rightarrow>
          (let currentNickname = draft_nickname currentUserData;
               timestamps = draft_change_timestamps currentUserData
           in if currentNickname = newNickname then (us, [Draft_failed Draft_nickname_unchanged])
              else
                (let twoWeeksAgo = now - twoWeeks;
                     recentChanges = filter (\<lambda>ts. ts > twoWeeksAgo) timestamps
                 in if length recentChanges \<ge> 2 then (us, [Draft_failed Draft_rate_limited])
                    else if fault = Some 2 then (us, [Draft_failed Draft_change_error])
                    else if list_ex (\<lambda>u. draft_nickname u = newNickname \<and> draft_user_id u \<noteq> userId) us
                      then (us, [Draft_failed Draft_nickname_taken])
                    else if fault = Some 3 then (us, [Draft_failed Draft_change_error])
                    else
                      (let us' = map (\<lambda>u. if draft_user_id u = userId
                                    then u\<lparr>draft_nickname := newNickname,
                                           previous_nickname := Some currentNickname,
                                           draft_change_timestamps := draft_change_timestamps u @ [now]\<rparr>
                                    else u) us
                       in (us', [Draft_succeeded (draft_select_user us' userId),
                                 Draft_user_renamed currentNickname newNickname]))))))"

section \<open>The nickname-keyed draft (server.js)\<close>

text \<open>
  \<open>server.js\<close> has no user table: a connection names itself with \<open>set_nickname\<close>, the
  feed entries and the direct messages carry nicknames.  Its \<open>global_message\<close> and
  \<open>delete_global_message\<close> are embedded here for comparison.
\<close>

record legacy_message =
  lm_id :: int
  lm_sender :: string
  lm_message :: string
  lm_type :: string
  lm_timestamp :: int

definition legacy_global_message ::
  "int \<Rightarrow> string \<Rightarrow> string \<Rightarrow> string option \<Rightarrow> legacy_message list
     \<Rightarrow> legacy_message list \<times> legacy_message" where
  "legacy_global_message now data_sender data_message data_type feed =
     (let messageData = \<lparr>lm_id = now, lm_sender = data_sender, lm_message = data_message,
                          lm_type = or_text data_type, lm_timestamp = now\<rparr>
      in (feed @ [messageData], messageData))"

definition legacy_delete_global_message ::
  "int \<Rightarrow> legacy_message list \<Rightarrow> legacy_message list \<times> int list" where
  "legacy_delete_global_message messageId feed =
     (let initialLength = length feed;
          filtered = filter (\<lambda>msg. lm_id msg \<noteq> messageId) feed
      in (filtered, if length filtered < initialLength then [messageId] else []))"

section \<open>Concrete states for the examples\<close>

text \<open>A feed holding one message of user \<open>u2\<close>; nobody else has written.\<close>

definition bobs_feed :: server where
  "bobs_feed = initial_server\<lparr>globalMessages :=
     [\<lparr>gm_id = 1, senderId = ''u2'', senderNickname = ''bob'', gm_message = ''hi'',
       gm_type = ''text'', gm_timestamp = 1\<rparr>]\<rparr>"

text \<open>User \<open>u1\<close>, nickname alice, registered and present on connection \<open>s1\<close>; the feed is empty.\<close>

definition alice_info :: online_info where
  "alice_info = \<lparr>info_nickname = ''alice'', socketId = ''s1''\<rparr>"

definition alice_row :: user where
  "alice_row = \<lparr>user_id = ''u1'', nickname = ''alice'', change_timestamps = [], last_seen = 0\<rparr>"

definition alice_online :: server where
  "alice_online = initial_server\<lparr>users := [alice_row], onlineUsers := [(''u1'', alice_info)]\<rparr>"

text \<open>101 messages, one per millisecond.\<close>

definition burst :: "(int \<times> string \<times> string option) list" where
  "burst = map (\<lambda>i. (int i, ''hi'', None)) [0..<101]"

text \<open>
  Users \<open>u1\<close>, nickname alice, and \<open>u2\<close>, nickname bob: both registered, both present,
  neither has changed nickname yet.
\<close>

definition bob_row :: user where
  "bob_row = \<lparr>user_id = ''u2'', nickname = ''bob'', change_timestamps = [], last_seen = 0\<rparr>"

definition bob_info :: online_info where
  "bob_info = \<lparr>info_nickname = ''bob'', socketId = ''s2''\<rparr>"

definition two_users :: server where
  "two_users = initial_server\<lparr>users := [alice_row, bob_row],
     onlineUsers := [(''u1'', alice_info), (''u2'', bob_info)]\<rparr>"


text \<open>The table of the two-week draft with one user.\<close>

definition draft_alice :: draft_user where
  "draft_alice = \<lparr>draft_user_id = ''u1'', draft_nickname = ''alice'', previous_nickname = None,
     draft_change_timestamps = []\<rparr>"





text \<open>
  Alice and bob have exchanged two direct messages with the same timestamp, and alice
  has written one message to the feed.
\<close>

definition chat :: server where
  "chat = two_users\<lparr>direct_messages :=
       [\<lparr>dm_id = 1, sender_id = ''u1'', receiver_id = ''u2'', dm_message = ''hey'',
         dm_type = ''text'', dm_timestamp = 7\<rparr>,
        \<lparr>dm_id = 2, sender_id = ''u2'', receiver_id = ''u1'', dm_message = ''yo'',
         dm_type = ''text'', dm_timestamp = 7\<rparr>],
     dm_serial := 2,
     globalMessages :=
       [\<lparr>gm_id = 3, senderId = ''u1'', senderNickname = ''alice'', gm_message = ''hi'',
         gm_type = ''text'', gm_timestamp = 3\<rparr>]\<rparr>"

definition chat_renamed :: "server \<times> emission list" where
  "chat_renamed = change_nickname ''s1'' None 50 ''carol'' (Some ''u1'') chat"



text \<open>The two users with a thread of two messages sent at different times.\<close>

definition chat_apart :: server where
  "chat_apart = two_users\<lparr>direct_messages :=
       [\<lparr>dm_id = 1, sender_id = ''u1'', receiver_id = ''u2'', dm_message = ''hey'',
         dm_type = ''text'', dm_timestamp = 7\<rparr>,
        \<lparr>dm_id = 2, sender_id = ''u2'', receiver_id = ''u1'', dm_message = ''yo'',
         dm_type = ''text'', dm_timestamp = 9\<rparr>],
     dm_serial := 2\<rparr>"

text \<open>
  Three choices of the store: rows in ascending order of their id, rows in descending
  order of their id (for ids up to 2), and no preference.
\<close>

definition by_id :: "dm_row \<Rightarrow> nat" where
  "by_id r = row_id r"

definition by_id_descending :: "dm_row \<Rightarrow> nat" where
  "by_id_descending r = 2 - row_id r"

definition as_found :: "'a \<Rightarrow> nat" where
  "as_found x = 0"

section \<open>Global Feed: deletion\<close>

text \<open>
  C1.  \<open>delete_global_message\<close> compares the session's identity with the \<open>senderId\<close> of
  the payload and never with the \<open>senderId\<close> stored in the message.  Here the feed holds
  a message of \<open>u2\<close>; the session bound to \<open>u1\<close> sends the id of that message together
  with its own identity: the message is removed and the deletion is broadcast.
\<close>

theorem delete_global_message_trusts_payload:
  "map senderId (globalMessages bobs_feed) = [''u2''] \<and>
   globalMessages (fst (delete_global_message 1 (Id ''u1'') (Some ''u1'') bobs_feed)) = [] \<and>
   snd (delete_global_message 1 (Id ''u1'') (Some ''u1'') bobs_feed) =
     [Io_emit (Global_message_deleted 1)]"
  by (simp add: delete_global_message_def bobs_feed_def initial_server_def)

text \<open>
  The same comparison lets a connection without identity through when the payload
  carries \<open>senderId: null\<close>, since \<open>null === null\<close>.
\<close>

lemma anonymous_delete_with_null_sender:
  "delete_global_message 1 Null None bobs_feed =
     (bobs_feed\<lparr>globalMessages := []\<rparr>, [Io_emit (Global_message_deleted 1)])"
  by (simp add: delete_global_message_def bobs_feed_def initial_server_def)

section \<open>Global Feed: capacity\<close>

lemma user_connect_feed [simp]:
  "globalMessages (fst (user_connect sock f now userId nick cu s)) = globalMessages s"
  by (simp add: user_connect_def reconcile_def admit_def Let_def split: option.splits)

lemma get_dm_partners_server [simp]: "fst (get_dm_partners f rank cu s) = s"
  by (simp add: get_dm_partners_def split: option.splits)

lemma load_dms_server [simp]: "fst (load_dms f tie target cu s) = s"
  by (simp add: load_dms_def split: option.splits)

lemma change_nickname_feed [simp]:
  "globalMessages (fst (change_nickname sock f now n cu s)) = globalMessages s"
  by (simp add: change_nickname_def Let_def split: option.splits)

lemma send_dm_feed [simp]:
  "globalMessages (fst (send_dm f now r b k cu s)) = globalMessages s"
  by (simp add: send_dm_def Let_def split: option.splits)

lemma delete_dm_feed [simp]:
  "globalMessages (fst (delete_dm f m cu s)) = globalMessages s"
  by (simp add: delete_dm_def Let_def split: option.splits)

lemma disconnect_feed [simp]:
  "globalMessages (fst (disconnect cu s)) = globalMessages s"
  by (simp add: disconnect_def Let_def split: option.splits)

lemma delete_global_message_feed:
  "globalMessages (fst (delete_global_message m p cu s)) =
     (if strict_eq cu p then filter (\<lambda>msg. gm_id msg \<noteq> m) (globalMessages s) else globalMessages s)"
  by (simp add: delete_global_message_def Let_def)

lemma global_message_bound:
  "length (globalMessages s) \<le> 100 \<Longrightarrow>
   length (globalMessages (fst (global_message now b k cu s))) \<le> 100"
  by (auto simp: global_message_def Let_def split: option.splits)

lemma handle_feed_bound:
  assumes "length (globalMessages s) \<le> 100"
  shows "length (globalMessages (fst (handle sock f tie rank now r cu s))) \<le> 100"
proof (cases r)
  case (Global_message b k)
  with assms show ?thesis by (simp add: keep_def global_message_bound)
next
  case (Delete_global_message m p)
  have "length (filter (\<lambda>msg. gm_id msg \<noteq> m) (globalMessages s)) \<le> length (globalMessages s)"
    by (rule length_filter_le)
  with assms have "length (filter (\<lambda>msg. gm_id msg \<noteq> m) (globalMessages s)) \<le> 100"
    by (rule le_trans [rotated])
  with assms Delete_global_message show ?thesis
    by (simp add: keep_def delete_global_message_feed)
qed (use assms in \<open>simp_all add: keep_def\<close>)

lemma step_feed_bound:
  "length (globalMessages (srv sys)) \<le> 100 \<Longrightarrow>
   length (globalMessages (srv (fst (step sys i)))) \<le> 100"
  using handle_feed_bound [of "srv sys" "in_socket i" "in_fault i" "in_tie i" "in_rank i" "in_now i"
      "in_request i"]
  by (auto simp: step_def split: option.splits prod.splits) (metis fst_conv)

lemma run_feed_bound:
  "length (globalMessages (srv sys)) \<le> 100 \<Longrightarrow>
   length (globalMessages (srv (run sys inputs))) \<le> 100"
  by (induction inputs arbitrary: sys) (simp_all add: step_feed_bound)

lemma global_message_present:
  assumes "uid \<noteq> []" "map_of (onlineUsers s) uid = Some info"
  shows "fst (global_message now b k (Some uid) s) =
     s\<lparr>globalMessages :=
        (if 100 < length (globalMessages s @ [message_of uid (info_nickname info) (now, b, k)])
         then tl (globalMessages s @ [message_of uid (info_nickname info) (now, b, k)])
         else globalMessages s @ [message_of uid (info_nickname info) (now, b, k)])\<rparr>"
  using assms by (simp add: global_message_def message_of_def Let_def)

lemma global_messages_feed:
  assumes "uid \<noteq> []" "map_of (onlineUsers s) uid = Some info" "length (globalMessages s) \<le> 100"
  shows "globalMessages (global_messages ms (Some uid) s) =
     drop (length (globalMessages s) + length ms - 100)
       (globalMessages s @ map (message_of uid (info_nickname info)) ms)"
  using assms
proof (induction ms arbitrary: s)
  case Nil
  then show ?case by simp
next
  case (Cons m ms)
  let ?msg = "message_of uid (info_nickname info) m"
  let ?s1 = "fst (global_message (fst m) (fst (snd m)) (snd (snd m)) (Some uid) s)"
  have s1: "?s1 = s\<lparr>globalMessages :=
        (if 100 < length (globalMessages s @ [?msg]) then tl (globalMessages s @ [?msg])
         else globalMessages s @ [?msg])\<rparr>"
    using global_message_present [OF Cons.prems(1,2), of "fst m" "fst (snd m)" "snd (snd m)"] by simp
  have online: "map_of (onlineUsers ?s1) uid = Some info"
    using Cons.prems(2) by (simp add: s1)
  have bound: "length (globalMessages ?s1) \<le> 100"
    using Cons.prems(3) by (simp add: s1)
  have ih: "globalMessages (global_messages ms (Some uid) ?s1) =
     drop (length (globalMessages ?s1) + length ms - 100)
       (globalMessages ?s1 @ map (message_of uid (info_nickname info)) ms)"
    by (rule Cons.IH [OF Cons.prems(1) online bound])
  show ?case
  proof (cases "length (globalMessages s) = 100")
    case True
    then obtain x g where g: "globalMessages s = x # g"
      by (cases "globalMessages s") auto
    have feed1: "globalMessages ?s1 = g @ [?msg]"
      using True by (simp add: s1 g)
    show ?thesis
      using True by (simp add: ih feed1) (simp add: g)
  next
    case False
    with Cons.prems(3) have "length (globalMessages s) < 100" by simp
    then have feed1: "globalMessages ?s1 = globalMessages s @ [?msg]"
      by (simp add: s1)
    show ?thesis
      by (simp add: ih feed1)
  qed
qed

text \<open>
  C2.  Whatever requests the process has served, the feed holds at most 100 messages.
  An append by a present sender stamps the message with the clock as its id and puts it
  at the tail, dropping the head when the feed was full.  After 101 appends to an empty
  feed the feed is the 2nd to 101st message in order: the 101st is there and, ids being
  distinct, the 1st is not.
\<close>

theorem global_feed_capacity:
  "length (globalMessages (srv (run initial_system inputs))) \<le> 100 \<and>
   (uid \<noteq> [] \<and> map_of (onlineUsers s) uid = Some info \<and> length (globalMessages s) \<le> 100 \<longrightarrow>
      gm_id (message_of uid (info_nickname info) (now, body, kind)) = now \<and>
      globalMessages (fst (global_message now body kind (Some uid) s)) =
        (if length (globalMessages s) < 100 then globalMessages s else tl (globalMessages s)) @
        [message_of uid (info_nickname info) (now, body, kind)]) \<and>
   (uid \<noteq> [] \<and> map_of (onlineUsers s) uid = Some info \<and> globalMessages s = [] \<and>
    length ms = 101 \<longrightarrow>
      globalMessages (global_messages ms (Some uid) s) =
        map (message_of uid (info_nickname info)) (tl ms) \<and>
      length (globalMessages (global_messages ms (Some uid) s)) = 100 \<and>
      message_of uid (info_nickname info) (ms ! 100) \<in>
        set (globalMessages (global_messages ms (Some uid) s)) \<and>
      (distinct (map fst ms) \<longrightarrow>
         message_of uid (info_nickname info) (ms ! 0) \<notin>
           set (globalMessages (global_messages ms (Some uid) s))))"
proof (intro conjI impI)
  show "length (globalMessages (srv (run initial_system inputs))) \<le> 100"
    by (rule run_feed_bound) (simp add: initial_system_def initial_server_def)
next
  show "gm_id (message_of uid (info_nickname info) (now, body, kind)) = now"
    by (simp add: message_of_def)
next
  assume a: "uid \<noteq> [] \<and> map_of (onlineUsers s) uid = Some info \<and> length (globalMessages s) \<le> 100"
  show "globalMessages (fst (global_message now body kind (Some uid) s)) =
        (if length (globalMessages s) < 100 then globalMessages s else tl (globalMessages s)) @
        [message_of uid (info_nickname info) (now, body, kind)]"
  proof (cases "length (globalMessages s) < 100")
    case True
    then show ?thesis using a by (simp add: global_message_present)
  next
    case False
    with a have "length (globalMessages s) = 100" by simp
    then have "globalMessages s \<noteq> []" by auto
    then show ?thesis using a False by (simp add: global_message_present)
  qed
next
  assume a: "uid \<noteq> [] \<and> map_of (onlineUsers s) uid = Some info \<and> globalMessages s = [] \<and>
    length ms = 101"
  then obtain m rest where ms: "ms = m # rest" and rest: "length rest = 100"
    by (cases ms) auto
  have feed: "globalMessages (global_messages ms (Some uid) s) =
        map (message_of uid (info_nickname info)) (tl ms)"
    using a global_messages_feed [of uid s info ms] by (simp add: ms)
  show "globalMessages (global_messages ms (Some uid) s) =
        map (message_of uid (info_nickname info)) (tl ms)"
    by (rule feed)
  show "length (globalMessages (global_messages ms (Some uid) s)) = 100"
    using a by (simp add: feed)
  have "rest ! 99 \<in> set rest"
    using rest by (simp del: One_nat_def)
  moreover have "ms ! 100 = rest ! 99"
    by (simp add: ms)
  ultimately show "message_of uid (info_nickname info) (ms ! 100) \<in>
        set (globalMessages (global_messages ms (Some uid) s))"
    unfolding feed by (simp add: ms)
  assume d: "distinct (map fst ms)"
  show "message_of uid (info_nickname info) (ms ! 0) \<notin>
           set (globalMessages (global_messages ms (Some uid) s))"
  proof
    assume "message_of uid (info_nickname info) (ms ! 0) \<in>
           set (globalMessages (global_messages ms (Some uid) s))"
    then obtain m' where m': "m' \<in> set rest"
        and eq: "message_of uid (info_nickname info) m = message_of uid (info_nickname info) m'"
      unfolding feed by (auto simp: ms)
    from eq have "fst m = fst m'" by (simp add: message_of_def)
    with m' d show False by (auto simp: ms)
  qed
qed

theorem global_feed_capacity_witness:
  "map_of (onlineUsers alice_online) ''u1'' = Some alice_info \<and>
   globalMessages alice_online = [] \<and> length burst = 101 \<and> distinct (map fst burst) \<and>
   globalMessages (fst (global_message 5 ''hi'' None (Some ''u1'') alice_online)) =
     [message_of ''u1'' (info_nickname alice_info) (5, ''hi'', None)] \<and>
   length (globalMessages (global_messages burst (Some ''u1'') alice_online)) = 100 \<and>
   message_of ''u1'' (info_nickname alice_info) (burst ! 100) \<in>
     set (globalMessages (global_messages burst (Some ''u1'') alice_online)) \<and>
   message_of ''u1'' (info_nickname alice_info) (burst ! 0) \<notin>
     set (globalMessages (global_messages burst (Some ''u1'') alice_online))"
proof -
  have h0: "''u1'' \<noteq> []"
    by simp
  have h1: "map_of (onlineUsers alice_online) ''u1'' = Some alice_info"
    by (simp add: alice_online_def initial_server_def)
  have h2: "globalMessages alice_online = []"
    by (simp add: alice_online_def initial_server_def)
  have h3: "length burst = 101"
    by (simp add: burst_def)
  have h4: "distinct (map fst burst)"
    by (simp add: burst_def distinct_map o_def inj_on_def)
  note t = global_feed_capacity [where uid = "''u1''" and s = alice_online and info = alice_info
        and ms = burst and now = 5 and body = "''hi''" and kind = None and inputs = "[]"]
  have one: "globalMessages (fst (global_message 5 ''hi'' None (Some ''u1'') alice_online)) =
     [message_of ''u1'' (info_nickname alice_info) (5, ''hi'', None)]"
    using t by (simp add: h1 h2)
  have many: "length (globalMessages (global_messages burst (Some ''u1'') alice_online)) = 100 \<and>
   message_of ''u1'' (info_nickname alice_info) (burst ! 100) \<in>
     set (globalMessages (global_messages burst (Some ''u1'') alice_online)) \<and>
   message_of ''u1'' (info_nickname alice_info) (burst ! 0) \<notin>
     set (globalMessages (global_messages burst (Some ''u1'') alice_online))"
    using t h0 h1 h2 h3 h4 by blast
  show ?thesis
    using h1 h2 h3 h4 one many by blast
qed

section \<open>Sessions without identity\<close>

text \<open>
  C3, as stated, fails at \<open>get_dm_partners\<close>: a connection without identity is
  answered with the empty array, the answer an identified user without partners gets,
  and not with an error.
\<close>

theorem anonymous_get_dm_partners_no_error:
  "get_dm_partners None as_found None two_users = (two_users, [Callback (Partners [])]) \<and>
   get_dm_partners None as_found None two_users =
     get_dm_partners None as_found (Some ''u1'') two_users \<and>
   Callback (Failed Not_authenticated) \<notin> set (snd (get_dm_partners None as_found None two_users))"
  by (simp add: get_dm_partners_def partner_query_def two_users_def initial_server_def)

text \<open>
  C3, amended.  On a connection whose \<open>currentUserId\<close> is \<open>null\<close>, the seven
  operations leave the whole state as it is: the fire-and-forget ones emit nothing
  (\<open>delete_global_message\<close> for every payload whose \<open>senderId\<close> is not \<open>null\<close>),
  \<open>change_nickname\<close> answers with the unauthenticated failure and \<open>get_dm_partners\<close>
  with the empty array.  A connection that is not live is delivered no event at all.
\<close>

theorem anonymous_requests_rejected:
  "payloadSenderId \<noteq> Null \<Longrightarrow>
     global_message now body kind None s = (s, []) \<and>
     delete_global_message messageId payloadSenderId None s = (s, []) \<and>
     load_dms fault tie targetNickname None s = (s, []) \<and>
     send_dm fault now receiverNickname body kind None s = (s, []) \<and>
     delete_dm fault dmId None s = (s, []) \<and>
     change_nickname sock fault now newNickname None s = (s, [Callback (Failed Not_authenticated)]) \<and>
     get_dm_partners fault rank None s = (s, [Callback (Partners [])]) \<and>
     (sessions sys (in_socket i) = None \<and> in_request i \<noteq> Connection \<longrightarrow> step sys i = (sys, []))"
  by (cases payloadSenderId)
     (simp_all add: global_message_def delete_global_message_def load_dms_def send_dm_def
        delete_dm_def change_nickname_def get_dm_partners_def step_def)

theorem anonymous_requests_rejected_witness:
  "Id ''u1'' \<noteq> Null \<and>
   global_message 5 ''hi'' None None bobs_feed = (bobs_feed, []) \<and>
   delete_global_message 1 (Id ''u1'') None bobs_feed = (bobs_feed, []) \<and>
   load_dms None by_id ''bob'' None bobs_feed = (bobs_feed, []) \<and>
   send_dm None 5 ''bob'' ''hi'' None None bobs_feed = (bobs_feed, []) \<and>
   delete_dm None 1 None bobs_feed = (bobs_feed, []) \<and>
   change_nickname ''s1'' None 5 ''carol'' None bobs_feed =
     (bobs_feed, [Callback (Failed Not_authenticated)]) \<and>
   get_dm_partners None as_found None bobs_feed = (bobs_feed, [Callback (Partners [])]) \<and>
   sessions initial_system ''s9'' = None \<and>
   step initial_system \<lparr>in_socket = ''s9'', in_fault = None, in_now = 5,
       in_request = Global_message ''hi'' None, in_tie = by_id, in_rank = as_found\<rparr> =
     (initial_system, [])"
  using anonymous_requests_rejected [where payloadSenderId = "Id ''u1''" and now = 5 and body = "''hi''"
      and kind = None and s = bobs_feed and messageId = 1 and fault = None and tie = by_id
      and targetNickname = "''bob''" and receiverNickname = "''bob''" and dmId = 1 and sock = "''s1''"
      and newNickname = "''carol''" and rank = as_found and sys = initial_system
      and i = "\<lparr>in_socket = ''s9'', in_fault = None, in_now = 5,
        in_request = Global_message ''hi'' None, in_tie = by_id, in_rank = as_found\<rparr>"]
  by (simp add: initial_system_def)

section \<open>User Directory: lookups and the shape of a rename\<close>

lemma select_user_update_user:
  assumes "\<And>u. user_id (f u) = user_id u"
  shows "select_user (update_user f uid us) uid = map_option f (select_user us uid)"
  by (induction us) (simp_all add: select_user_def update_user_def assms)

lemma select_user_Some: "select_user us k = Some u \<Longrightarrow> u \<in> set us \<and> user_id u = k"
  unfolding select_user_def by (auto simp: find_Some_iff)

lemma select_user_present: "k \<in> user_id ` set us \<Longrightarrow> \<exists>u. select_user us k = Some u"
  unfolding select_user_def by (cases "find (\<lambda>u. user_id u = k) us") (auto simp: find_None_iff)

lemma select_user_key:
  "distinct (map user_id us) \<Longrightarrow> u \<in> set us \<Longrightarrow> select_user us (user_id u) = Some u"
  by (induction us) (auto simp: select_user_def)

lemma select_user_update_other:
  assumes "\<And>u. user_id (f u) = user_id u" "q \<noteq> uid"
  shows "select_user (update_user f uid us) q = select_user us q"
  by (induction us) (simp_all add: select_user_def update_user_def assms)

lemma user_ids_update_user:
  assumes "\<And>u. user_id (f u) = user_id u"
  shows "map user_id (update_user f uid us) = map user_id us"
  by (induction us) (simp_all add: update_user_def assms)

lemma change_nickname_identified:
  assumes "uid \<noteq> []"
  shows "change_nickname sock fault now n (Some uid) s =
     (if fault = Some 1 then (s, [Callback (Failed Change_error)])
      else case select_user (users s) uid of
        None \<Rightarrow> (s, [Callback (Failed Change_error)])
      | Some row \<Rightarrow>
          if 2 \<le> length (filter (\<lambda>ts. now - oneWeek < ts) (change_timestamps row))
            then (s, [Callback (Failed Rate_limited)])
          else if fault = Some 2 then (s, [Callback (Failed Change_error)])
          else if nickname_taken_by_other (users s) n uid then (s, [Callback (Failed Nickname_taken)])
          else if fault = Some 3 then (s, [Callback (Failed Change_error)])
          else
            (s\<lparr>users := update_user
                   (\<lambda>u. u\<lparr>nickname := n, change_timestamps := change_timestamps u @ [now]\<rparr>) uid (users s),
               onlineUsers := AList.update uid \<lparr>info_nickname = n, socketId = sock\<rparr> (onlineUsers s)\<rparr>,
             [Io_emit (Nickname_changed (nickname row) n),
              Io_emit (Online_users_update
                 (map fst (AList.update uid \<lparr>info_nickname = n, socketId = sock\<rparr> (onlineUsers s)))),
              Callback (Succeeded (row\<lparr>nickname := n, change_timestamps := change_timestamps row @ [now]\<rparr>))]))"
  using assms
  by (simp add: change_nickname_def Let_def select_user_update_user split: option.splits)

lemma change_nickname_success:
  assumes "change_nickname sock fault now n cu s = (s', out)"
    and "Callback (Succeeded u) \<in> set out"
  obtains uid row where "cu = Some uid" "uid \<noteq> []" "select_user (users s) uid = Some row"
    "length (filter (\<lambda>ts. now - oneWeek < ts) (change_timestamps row)) < 2"
    "\<not> nickname_taken_by_other (users s) n uid"
    "u = row\<lparr>nickname := n, change_timestamps := change_timestamps row @ [now]\<rparr>"
    "s' = s\<lparr>users := update_user
                   (\<lambda>u. u\<lparr>nickname := n, change_timestamps := change_timestamps u @ [now]\<rparr>) uid (users s),
               onlineUsers := AList.update uid \<lparr>info_nickname = n, socketId = sock\<rparr> (onlineUsers s)\<rparr>"
    "out = [Io_emit (Nickname_changed (nickname row) n),
            Io_emit (Online_users_update (map fst (onlineUsers s'))),
            Callback (Succeeded u)]"
proof (cases cu)
  case None
  with assms show ?thesis by (auto simp: change_nickname_def)
next
  case (Some uid)
  show ?thesis
  proof (cases "uid = []")
    case True
    with Some assms show ?thesis by (auto simp: change_nickname_def)
  next
    case False
    from assms show ?thesis
      unfolding Some change_nickname_identified [OF False]
      by (auto split: if_splits option.splits intro!: that [OF Some False])
  qed
qed



section \<open>The constraints of the schema hold in every reachable state\<close>

lemma select_user_None: "select_user us k = None \<Longrightarrow> k \<notin> user_id ` set us"
  unfolding select_user_def by (auto simp: find_None_iff)

lemma select_by_nickname_Some: "select_by_nickname us n = Some u \<Longrightarrow> u \<in> set us"
  unfolding select_by_nickname_def by (auto simp: find_Some_iff in_set_conv_nth)

lemma user_ids_update_user':
  "map user_id (update_user (\<lambda>u. u\<lparr>nickname := n, last_seen := t\<rparr>) uid us) = map user_id us"
  "map user_id (update_user (\<lambda>u. u\<lparr>nickname := n, change_timestamps := change_timestamps u @ [t]\<rparr>) uid us) =
     map user_id us"
  by (simp_all add: user_ids_update_user)

lemma store_consistent_users:
  assumes "store_consistent s" "map user_id us' = map user_id (users s)"
  shows "store_consistent (s\<lparr>users := us'\<rparr>)"
proof -
  from assms(2) have "user_id ` set us' = user_id ` set (users s)"
    by (metis set_map)
  with assms show ?thesis
    by (simp add: store_consistent_def)
qed

lemma store_consistent_online [simp]:
  "store_consistent (s\<lparr>onlineUsers := xs\<rparr>) = store_consistent s"
  by (simp add: store_consistent_def)

lemma store_consistent_serial [simp]:
  "store_consistent (s\<lparr>dm_serial := n\<rparr>) = store_consistent s"
  by (simp add: store_consistent_def)

lemma store_consistent_feed [simp]:
  "store_consistent (s\<lparr>globalMessages := xs\<rparr>) = store_consistent s"
  by (simp add: store_consistent_def)

lemma user_connect_consistent:
  assumes "store_consistent s"
  shows "store_consistent (fst (user_connect sock f now userId nick cu s))"
proof (cases "select_user (users s) userId")
  case None
  then have fresh: "userId \<notin> user_id ` set (users s)"
    by (rule select_user_None)
  have "store_consistent (s\<lparr>users := users s @
      [\<lparr>user_id = userId, nickname = nick, change_timestamps = [], last_seen = now\<rparr>]\<rparr>)"
    using assms fresh by (auto simp: store_consistent_def list_all_iff)
  with assms None show ?thesis
    by (simp add: user_connect_def admit_def Let_def)
next
  case (Some usr)
  have "store_consistent (s\<lparr>users := update_user (\<lambda>u. u\<lparr>nickname := n, last_seen := now\<rparr>) userId (users s)\<rparr>)"
    for n
    using assms by (rule store_consistent_users) (simp add: user_ids_update_user')
  with assms Some show ?thesis
    by (simp add: user_connect_def reconcile_def admit_def Let_def)
qed

lemma change_nickname_consistent:
  assumes "store_consistent s"
  shows "store_consistent (fst (change_nickname sock f now n cu s))"
proof -
  have "store_consistent (s\<lparr>users := update_user
      (\<lambda>u. u\<lparr>nickname := n, change_timestamps := change_timestamps u @ [now]\<rparr>) uid (users s)\<rparr>)"
    for uid
    using assms by (rule store_consistent_users) (simp add: user_ids_update_user')
  with assms show ?thesis
    by (simp add: change_nickname_def Let_def split: option.splits)
qed

lemma send_dm_consistent:
  assumes "store_consistent s"
  shows "store_consistent (fst (send_dm f now r b k cu s))"
proof -
  have "store_consistent (s\<lparr>direct_messages := direct_messages s @
        [\<lparr>dm_id = i, sender_id = uid, receiver_id = user_id receiver, dm_message = b,
          dm_type = t, dm_timestamp = now\<rparr>], dm_serial := j\<rparr>)"
    if "select_by_nickname (users s) r = Some receiver" "select_user (users s) uid = Some usr"
    for i j uid receiver usr t
    using assms select_by_nickname_Some [OF that(1)] select_user_Some [OF that(2)]
    by (auto simp: store_consistent_def)
  with assms show ?thesis
    by (auto simp: send_dm_def Let_def split: option.splits)
qed

lemma delete_dm_consistent:
  assumes "store_consistent s"
  shows "store_consistent (fst (delete_dm f m cu s))"
  using assms
  by (auto simp: delete_dm_def Let_def store_consistent_def list_all_iff split: option.splits)

lemma handle_consistent:
  assumes "store_consistent s"
  shows "store_consistent (fst (handle sock f tie rank now r cu s))"
  using assms
  by (cases r)
     (simp_all add: keep_def user_connect_consistent change_nickname_consistent send_dm_consistent
        delete_dm_consistent global_message_def delete_global_message_def disconnect_def Let_def
        split: option.splits)

lemma step_consistent:
  "store_consistent (srv sys) \<Longrightarrow> store_consistent (srv (fst (step sys i)))"
  using handle_consistent [of "srv sys" "in_socket i" "in_fault i" "in_tie i" "in_rank i" "in_now i"
      "in_request i"]
  by (auto simp: step_def split: option.splits prod.splits) (metis fst_conv)

text \<open>Every state that the process reaches from its start satisfies the declared constraints.\<close>

lemma run_consistent:
  "store_consistent (srv sys) \<Longrightarrow> store_consistent (srv (run sys inputs))"
  by (induction inputs arbitrary: sys) (simp_all add: step_consistent)

lemma reachable_consistent: "store_consistent (srv (run initial_system inputs))"
  by (rule run_consistent) (simp add: initial_system_def initial_server_def store_consistent_def)

section \<open>Connecting\<close>



section \<open>Renaming\<close>








text \<open>The two-week draft applies the same count over 14 days, after its own earlier tests.\<close>

lemma draft_window_refuses:
  assumes "userId \<noteq> []" "newNickname \<noteq> []" "cu = Some userId" "fault \<noteq> Some 1"
    and "draft_select_user us userId = Some row" "draft_nickname row \<noteq> newNickname"
    and "2 \<le> length (filter (\<lambda>ts. now - twoWeeks < ts) (draft_change_timestamps row))"
  shows "draft_change_nickname fault now userId newNickname cu us =
     (us, [Draft_failed Draft_rate_limited])"
  using assms by (simp add: draft_change_nickname_def)

lemma draft_select_user_update:
  assumes "\<And>u. draft_user_id (f u) = draft_user_id u"
  shows "draft_select_user (map (\<lambda>u. if draft_user_id u = uid then f u else u) us) uid =
     map_option f (draft_select_user us uid)"
  by (induction us) (simp_all add: draft_select_user_def assms)

lemma draft_window_elapsed:
  assumes "userId \<noteq> []" "newNickname \<noteq> []" "cu = Some userId"
    and "draft_select_user us userId = Some row" "draft_nickname row \<noteq> newNickname"
    and "length (filter (\<lambda>ts. now - twoWeeks < ts) (draft_change_timestamps row)) < 2"
    and "\<not> list_ex (\<lambda>u. draft_nickname u = newNickname \<and> draft_user_id u \<noteq> userId) us"
  shows "snd (draft_change_nickname None now userId newNickname cu us) =
     [Draft_succeeded (Some (row\<lparr>draft_nickname := newNickname,
          previous_nickname := Some (draft_nickname row),
          draft_change_timestamps := draft_change_timestamps row @ [now]\<rparr>)),
      Draft_user_renamed (draft_nickname row) newNickname]"
  using assms by (simp add: draft_change_nickname_def Let_def draft_select_user_update)





text \<open>
  C7.  \<open>change_nickname\<close> of the user-id keyed server has no test for an unchanged
  nickname: the uniqueness check excludes the user's own row, so a rename of alice to
  alice is written, consumes one of the two changes of the window, and is broadcast.
\<close>

theorem rename_to_same_nickname_accepted:
  "nickname alice_row = ''alice'' \<and>
   change_nickname ''s1'' None 5000 ''alice'' (Some ''u1'') alice_online =
     (alice_online\<lparr>users := [alice_row\<lparr>change_timestamps := [5000]\<rparr>]\<rparr>,
      [Io_emit (Nickname_changed ''alice'' ''alice''), Io_emit (Online_users_update [''u1'']),
       Callback (Succeeded (alice_row\<lparr>change_timestamps := [5000]\<rparr>))])"
  by (simp add: change_nickname_def select_user_def update_user_def nickname_taken_by_other_def
        alice_online_def initial_server_def alice_row_def alice_info_def Let_def oneWeek_def)

text \<open>The two-week draft refuses the same request before it looks at the window.\<close>

lemma draft_unchanged_refused:
  assumes "userId \<noteq> []" "newNickname \<noteq> []" "cu = Some userId" "fault \<noteq> Some 1"
    and "draft_select_user us userId = Some row" "draft_nickname row = newNickname"
  shows "draft_change_nickname fault now userId newNickname cu us =
     (us, [Draft_failed Draft_nickname_unchanged])"
  using assms by (simp add: draft_change_nickname_def)

lemma draft_unchanged_example:
  "draft_change_nickname None 5000 ''u1'' ''alice'' (Some ''u1'') [draft_alice] =
     ([draft_alice], [Draft_failed Draft_nickname_unchanged])"
  by (simp add: draft_change_nickname_def draft_select_user_def draft_alice_def)

text \<open>
  C9.  When \<open>change_nickname\<close> answers with a failure, the process state (the user's
  row, the presence entry, the feed and everything else) is the one before the request,
  and the answer through the callback is the only emission: no \<open>nickname_changed\<close>, no
  \<open>online_users_update\<close>.  The failure is one of: not authenticated, rate limited,
  nickname taken, store failure.
\<close>

theorem change_nickname_failure_atomic:
  "change_nickname sock fault now n cu s = (s', out) \<Longrightarrow> Callback (Failed f) \<in> set out \<Longrightarrow>
     s' = s \<and> out = [Callback (Failed f)] \<and>
     f \<in> {Not_authenticated, Rate_limited, Nickname_taken, Change_error}"
proof (cases cu)
  case None
  assume "change_nickname sock fault now n cu s = (s', out)" "Callback (Failed f) \<in> set out"
  with None show ?thesis by (auto simp: change_nickname_def)
next
  case (Some uid)
  assume a: "change_nickname sock fault now n cu s = (s', out)" "Callback (Failed f) \<in> set out"
  show ?thesis
  proof (cases "uid = []")
    case True
    with Some a show ?thesis by (auto simp: change_nickname_def)
  next
    case False
    from a show ?thesis
      unfolding Some change_nickname_identified [OF False]
      by (auto split: if_splits option.splits)
  qed
qed

theorem change_nickname_failure_atomic_witness:
  "Callback (Failed Nickname_taken) \<in> set (snd (change_nickname ''s1'' None 5 ''bob'' (Some ''u1'') two_users)) \<and>
   fst (change_nickname ''s1'' None 5 ''bob'' (Some ''u1'') two_users) = two_users \<and>
   snd (change_nickname ''s1'' None 5 ''bob'' (Some ''u1'') two_users) = [Callback (Failed Nickname_taken)]"
proof -
  have h: "Callback (Failed Nickname_taken) \<in>
      set (snd (change_nickname ''s1'' None 5 ''bob'' (Some ''u1'') two_users))"
    by (simp add: change_nickname_def select_user_def nickname_taken_by_other_def two_users_def
        initial_server_def alice_row_def bob_row_def Let_def)
  show ?thesis
    using change_nickname_failure_atomic [OF surjective_pairing h] h by simp
qed

section \<open>Direct-message threads\<close>

lemma insort_key_map: "insort_key f (g x) (map g xs) = map g (insort_key (\<lambda>y. f (g y)) x xs)"
  by (induction xs) auto

lemma sort_key_map: "sort_key f (map g xs) = map g (sort_key (\<lambda>y. f (g y)) xs)"
  by (induction xs) (simp_all add: insort_key_map)

lemma concat_map_filter: "concat (map (\<lambda>x. if P x then [f x] else []) xs) = map f (filter P xs)"
  by (induction xs) auto

lemma select_user_absent:
  "k \<notin> user_id ` set us \<Longrightarrow> concat (map (\<lambda>u. if k = user_id u then g u else []) us) = []"
  by (induction us) auto

lemma select_user_join:
  "distinct (map user_id us) \<Longrightarrow>
   concat (map (\<lambda>u. if k = user_id u then g u else []) us) =
     (case select_user us k of None \<Rightarrow> [] | Some u \<Rightarrow> g u)"
proof (induction us)
  case Nil
  then show ?case by (simp add: select_user_def)
next
  case (Cons u us)
  show ?case
  proof (cases "k = user_id u")
    case True
    with Cons.prems have "k \<notin> user_id ` set us" by auto
    then have "concat (map (\<lambda>u. if k = user_id u then g u else []) us) = []"
      by (rule select_user_absent)
    with True show ?thesis by (simp add: select_user_def)
  next
    case False
    with Cons show ?thesis by (auto simp: select_user_def)
  qed
qed

text \<open>With \<open>user_id\<close> a key, each join of the thread query is a lookup of one row.\<close>

lemma thread_rows_lookup:
  assumes "distinct (map user_id us)"
  shows "thread_rows us dms p1 p2 =
     concat (map (\<lambda>dm.
       case select_user us (sender_id dm) of
         None \<Rightarrow> []
       | Some sender \<Rightarrow>
           (case select_user us (receiver_id dm) of
              None \<Rightarrow> []
            | Some receiver \<Rightarrow>
                if (sender_id dm = p1 \<and> receiver_id dm = p2) \<or> (sender_id dm = p2 \<and> receiver_id dm = p1)
                then [\<lparr>row_id = dm_id dm, row_message = dm_message dm, row_type = dm_type dm,
                       row_timestamp = dm_timestamp dm,
                       sender_nickname = nickname sender, receiver_nickname = nickname receiver\<rparr>]
                else [])) dms)"
  unfolding thread_rows_def
  by (simp add: select_user_join [OF assms] cong: option.case_cong)

text \<open>The pair condition is symmetric: both directions select the same rows.\<close>

lemma thread_rows_commute: "thread_rows us dms a b = thread_rows us dms b a"
proof -
  have "((sender_id dm = a \<and> receiver_id dm = b) \<or> (sender_id dm = b \<and> receiver_id dm = a)) =
        ((sender_id dm = b \<and> receiver_id dm = a) \<or> (sender_id dm = a \<and> receiver_id dm = b))"
    for dm :: direct_message
    by blast
  then show ?thesis
    unfolding thread_rows_def by (simp only:)
qed

lemma thread_query_sorted: "sorted (map row_timestamp (thread_query tie us dms a b))"
  by (simp add: thread_query_def)

lemma thread_query_mset: "mset (thread_query tie us dms a b) = mset (thread_rows us dms a b)"
  by (simp add: thread_query_def)

lemma thread_query_set: "set (thread_query tie us dms a b) = set (thread_rows us dms a b)"
  by (simp add: thread_query_def)

text \<open>Where no two rows share a key, the order by that key leaves the store no choice.\<close>

lemma sort_key_distinct_keys:
  assumes "distinct (map f xs)"
  shows "sort_key f (sort_key g xs) = sort_key f xs"
proof (rule map_sorted_distinct_set_unique [where f = f])
  from assms have inj: "inj_on f (set xs)" and dist: "distinct xs"
    by (simp_all add: distinct_map)
  from inj show "inj_on f (set (sort_key f (sort_key g xs)) \<union> set (sort_key f xs))"
    by simp
  show "sorted (map f (sort_key f (sort_key g xs)))" "sorted (map f (sort_key f xs))"
    by simp_all
  from inj dist show "distinct (map f (sort_key f (sort_key g xs)))"
      "distinct (map f (sort_key f xs))"
    by (simp_all add: distinct_map)
  show "set (sort_key f (sort_key g xs)) = set (sort_key f xs)"
    by simp
qed

lemma thread_query_distinct_timestamps:
  assumes "distinct (map row_timestamp (thread_rows us dms a b))"
  shows "thread_query tie us dms a b = sort_key row_timestamp (thread_rows us dms a b)"
  unfolding thread_query_def using assms by (rule sort_key_distinct_keys)

text \<open>
  With \<open>user_id\<close> a key and every message referring to existing users, the rows of the
  thread are the messages of the pair, one row each, in the order of the table.
\<close>

lemma thread_rows_messages:
  assumes key: "distinct (map user_id us)"
    and refs: "\<forall>d\<in>set dms. sender_id d \<in> user_id ` set us \<and> receiver_id d \<in> user_id ` set us"
  shows "thread_rows us dms a b =
     map (\<lambda>d. \<lparr>row_id = dm_id d, row_message = dm_message d, row_type = dm_type d,
       row_timestamp = dm_timestamp d,
       sender_nickname = nickname (the (select_user us (sender_id d))),
       receiver_nickname = nickname (the (select_user us (receiver_id d)))\<rparr>)
     (filter (\<lambda>d. (sender_id d = a \<and> receiver_id d = b) \<or> (sender_id d = b \<and> receiver_id d = a)) dms)"
proof -
  let ?pair = "\<lambda>d. (sender_id d = a \<and> receiver_id d = b) \<or> (sender_id d = b \<and> receiver_id d = a)"
  let ?row = "\<lambda>d. \<lparr>row_id = dm_id d, row_message = dm_message d, row_type = dm_type d,
       row_timestamp = dm_timestamp d,
       sender_nickname = nickname (the (select_user us (sender_id d))),
       receiver_nickname = nickname (the (select_user us (receiver_id d)))\<rparr>"
  have one: "(case select_user us (sender_id d) of
         None \<Rightarrow> []
       | Some sender \<Rightarrow>
           (case select_user us (receiver_id d) of
              None \<Rightarrow> []
            | Some receiver \<Rightarrow>
                if ?pair d
                then [\<lparr>row_id = dm_id d, row_message = dm_message d, row_type = dm_type d,
                       row_timestamp = dm_timestamp d,
                       sender_nickname = nickname sender, receiver_nickname = nickname receiver\<rparr>]
                else [])) = (if ?pair d then [?row d] else [])" if "d \<in> set dms" for d
  proof -
    from that refs obtain su ru where "select_user us (sender_id d) = Some su"
        "select_user us (receiver_id d) = Some ru"
      using select_user_present by blast
    then show ?thesis by simp
  qed
  have "thread_rows us dms a b = concat (map (\<lambda>d. if ?pair d then [?row d] else []) dms)"
    unfolding thread_rows_lookup [OF key]
    by (rule arg_cong [where f = concat], rule map_cong [OF refl]) (use one in blast)
  also have "\<dots> = map ?row (filter ?pair dms)"
    by (simp only: concat_map_filter)
  finally show ?thesis .
qed

lemma thread_query_ids:
  assumes key: "distinct (map user_id us)"
    and refs: "\<forall>d\<in>set dms. sender_id d \<in> user_id ` set us \<and> receiver_id d \<in> user_id ` set us"
  shows "mset (map row_id (thread_query tie us dms a b)) =
     mset (map dm_id
       (filter (\<lambda>d. (sender_id d = a \<and> receiver_id d = b) \<or> (sender_id d = b \<and> receiver_id d = a)) dms))"
proof -
  have "mset (map row_id (thread_query tie us dms a b)) = image_mset row_id (mset (thread_rows us dms a b))"
    by (simp add: thread_query_mset)
  also have "\<dots> = mset (map row_id (thread_rows us dms a b))"
    by simp
  finally show ?thesis
    by (simp add: thread_rows_messages [OF key refs] o_def)
qed

lemma thread_query_ids_in_order:
  assumes key: "distinct (map user_id us)"
    and refs: "\<forall>d\<in>set dms. sender_id d \<in> user_id ` set us \<and> receiver_id d \<in> user_id ` set us"
    and apart: "distinct (map dm_timestamp
       (filter (\<lambda>d. (sender_id d = a \<and> receiver_id d = b) \<or> (sender_id d = b \<and> receiver_id d = a)) dms))"
  shows "map row_id (thread_query tie us dms a b) =
     map dm_id (sort_key dm_timestamp
       (filter (\<lambda>d. (sender_id d = a \<and> receiver_id d = b) \<or> (sender_id d = b \<and> receiver_id d = a)) dms))"
proof -
  note rows = thread_rows_messages [OF key refs, of a b]
  from apart have "distinct (map row_timestamp (thread_rows us dms a b))"
    by (simp add: rows o_def)
  then have "thread_query tie us dms a b = sort_key row_timestamp (thread_rows us dms a b)"
    by (rule thread_query_distinct_timestamps)
  then show ?thesis
    by (simp add: rows sort_key_map o_def)
qed

text \<open>In a reachable state the constraints hold, so the thread is complete without further assumption.\<close>

lemma reachable_thread_complete:
  "mset (map row_id (thread_query tie (users (srv (run initial_system inputs)))
      (direct_messages (srv (run initial_system inputs))) a b)) =
   mset (map dm_id
     (filter (\<lambda>d. (sender_id d = a \<and> receiver_id d = b) \<or> (sender_id d = b \<and> receiver_id d = a))
        (direct_messages (srv (run initial_system inputs)))))"
  using reachable_consistent [of inputs]
  by (intro thread_query_ids) (simp_all add: store_consistent_def list_all_iff)

text \<open>
  The rank as a model of the store's choice: every list of pairwise different rows is
  the answer for the rank that numbers its rows, so every ascending order of the rows
  of a thread is an answer of the thread query, and every order of the partners'
  nicknames is an answer of the partner query.
\<close>

lemma rank_in_nth: "x \<in> set xs \<Longrightarrow> rank_in xs x < length xs \<and> xs ! rank_in xs x = x"
  by (induction xs) auto

lemma rank_in_inj: "inj_on (rank_in xs) (set xs)"
proof (rule inj_onI)
  fix x y
  assume "x \<in> set xs" "y \<in> set xs" "rank_in xs x = rank_in xs y"
  then show "x = y"
    by (metis rank_in_nth)
qed

lemma rank_in_sorted: "distinct xs \<Longrightarrow> sorted (map (rank_in xs) xs)"
proof (induction xs)
  case Nil
  show ?case by simp
next
  case (Cons y ys)
  then have tail: "map (rank_in (y # ys)) ys = map (\<lambda>x. Suc (rank_in ys x)) ys"
    by auto
  from Cons have "sorted (map (\<lambda>x. Suc (rank_in ys x)) ys)"
    by (simp add: sorted_map)
  then have "sorted (0 # map (\<lambda>x. Suc (rank_in ys x)) ys)"
    by simp
  then have "sorted (rank_in (y # ys) y # map (rank_in (y # ys)) ys)"
    unfolding tail by simp
  then show ?case
    by (simp only: list.map)
qed

lemma rank_in_order:
  assumes dist: "distinct answer" and rows: "mset rows = mset answer"
  shows "sort_key (rank_in answer) rows = answer"
proof (rule map_sorted_distinct_set_unique [where f = "rank_in answer"])
  from rows have sets: "set rows = set answer"
    by (rule mset_eq_setD)
  from rows dist have dist_rows: "distinct rows"
    using mset_eq_imp_distinct_iff by blast
  from sets show "inj_on (rank_in answer) (set (sort_key (rank_in answer) rows) \<union> set answer)"
    by (simp add: rank_in_inj)
  show "sorted (map (rank_in answer) (sort_key (rank_in answer) rows))"
    by simp
  from dist show "sorted (map (rank_in answer) answer)"
    by (rule rank_in_sorted)
  from dist_rows sets show "distinct (map (rank_in answer) (sort_key (rank_in answer) rows))"
    by (simp add: distinct_map rank_in_inj)
  from dist show "distinct (map (rank_in answer) answer)"
    by (simp add: distinct_map rank_in_inj)
  from sets show "set (sort_key (rank_in answer) rows) = set answer"
    by simp
qed

lemma thread_query_any_order:
  assumes "distinct answer" "mset answer = mset (thread_rows us dms a b)"
    "sorted (map row_timestamp answer)"
  shows "thread_query (rank_in answer) us dms a b = answer"
proof -
  from assms(1,2) have "sort_key (rank_in answer) (thread_rows us dms a b) = answer"
    by (intro rank_in_order) simp_all
  with assms(3) show ?thesis
    by (simp add: thread_query_def sort_key_id_if_sorted)
qed

lemma partner_query_any_order:
  assumes "distinct answer" "set answer = set (partner_query rank us dms p)"
  shows "partner_query (rank_in answer) us dms p = answer"
proof -
  define rows where "rows = remdups [nickname u. u \<leftarrow> us,
          user_id u \<in> set ([receiver_id d. d \<leftarrow> dms, sender_id d = p] @
                              [sender_id d. d \<leftarrow> dms, receiver_id d = p])]"
  have query: "partner_query r us dms p = sort_key r rows" for r
    unfolding rows_def partner_query_def ..
  have "distinct rows"
    unfolding rows_def by (rule distinct_remdups)
  moreover from assms(2) have "set rows = set answer"
    by (simp add: query)
  ultimately have "mset rows = mset answer"
    using assms(1) by (simp add: set_eq_iff_mset_eq_distinct)
  with assms(1) have "sort_key (rank_in answer) rows = answer"
    by (rule rank_in_order)
  then show ?thesis
    by (simp add: query)
qed

text \<open>
  C5, as stated, fails.  The thread is one query, but it is ordered by the timestamp
  alone: where two messages of a thread carry the same timestamp, their order is the
  store's choice at each execution, so the single query gives no stable total order
  and the two participants need not see the same list.  In \<open>chat\<close> both messages have
  timestamp 7.  An execution in which the store puts equal timestamps in ascending
  order of id answers alice with the messages 1, 2; an execution in which it puts them
  in descending order of id answers bob, and alice when she asks again, with 2, 1.
\<close>

theorem load_thread_order_differs:
  "map dm_timestamp (direct_messages chat) = [7, 7] \<and>
   load_dms None by_id ''bob'' (Some ''u1'') chat =
     (chat, [Socket_emit (Loaded_dms ''bob''
        (thread_query by_id (users chat) (direct_messages chat) ''u1'' ''u2''))]) \<and>
   load_dms None by_id_descending ''alice'' (Some ''u2'') chat =
     (chat, [Socket_emit (Loaded_dms ''alice''
        (thread_query by_id_descending (users chat) (direct_messages chat) ''u2'' ''u1''))]) \<and>
   load_dms None by_id_descending ''bob'' (Some ''u1'') chat =
     (chat, [Socket_emit (Loaded_dms ''bob''
        (thread_query by_id_descending (users chat) (direct_messages chat) ''u1'' ''u2''))]) \<and>
   map row_id (thread_query by_id (users chat) (direct_messages chat) ''u1'' ''u2'') = [1, 2] \<and>
   map row_id (thread_query by_id_descending (users chat) (direct_messages chat) ''u2'' ''u1'') = [2, 1] \<and>
   map row_id (thread_query by_id_descending (users chat) (direct_messages chat) ''u1'' ''u2'') = [2, 1]"
  by (simp add: load_dms_def select_by_nickname_def thread_query_def thread_rows_def by_id_def
      by_id_descending_def chat_def two_users_def initial_server_def alice_row_def bob_row_def)

text \<open>
  C5, amended.  The thread of two users is one query whose pair condition is symmetric.
  Whatever the store chooses among equal timestamps, for either caller: the answer is
  in ascending timestamp order; asking for \<open>(a, b)\<close> and for \<open>(b, a)\<close> gives the same
  rows, each as often; and gives the same list when no two rows of the thread share a
  timestamp.  With \<open>user_id\<close> a key and every message referring to existing users, the
  rows are exactly the messages sent from \<open>a\<close> to \<open>b\<close> or from \<open>b\<close> to \<open>a\<close>, one row
  each, in the ascending timestamp order of those messages when their timestamps are
  pairwise different.  \<open>load_dms\<close> emits the answer to either participant who names the
  other.  Nothing is promised for the order of messages with equal timestamps.
\<close>

theorem load_thread_symmetric_ordered:
  "sorted (map row_timestamp (thread_query tie us dms a b)) \<and>
   mset (thread_query tie us dms a b) = mset (thread_query tie' us dms b a) \<and>
   (distinct (map row_timestamp (thread_rows us dms a b)) \<longrightarrow>
      thread_query tie us dms a b = thread_query tie' us dms b a) \<and>
   (distinct (map user_id us) \<and>
    (\<forall>d\<in>set dms. sender_id d \<in> user_id ` set us \<and> receiver_id d \<in> user_id ` set us) \<longrightarrow>
      mset (map row_id (thread_query tie us dms a b)) =
        mset (map dm_id
          (filter (\<lambda>d. (sender_id d = a \<and> receiver_id d = b) \<or> (sender_id d = b \<and> receiver_id d = a)) dms)) \<and>
      (distinct (map dm_timestamp
          (filter (\<lambda>d. (sender_id d = a \<and> receiver_id d = b) \<or> (sender_id d = b \<and> receiver_id d = a)) dms)) \<longrightarrow>
        map row_id (thread_query tie us dms a b) =
          map dm_id (sort_key dm_timestamp
            (filter (\<lambda>d. (sender_id d = a \<and> receiver_id d = b) \<or> (sender_id d = b \<and> receiver_id d = a)) dms)))) \<and>
   (a \<noteq> [] \<and> b \<noteq> [] \<and>
    select_by_nickname (users s) nick_a = Some row_a \<and> user_id row_a = a \<and>
    select_by_nickname (users s) nick_b = Some row_b \<and> user_id row_b = b \<longrightarrow>
      load_dms None tie nick_b (Some a) s =
        (s, [Socket_emit (Loaded_dms nick_b (thread_query tie (users s) (direct_messages s) a b))]) \<and>
      load_dms None tie' nick_a (Some b) s =
        (s, [Socket_emit (Loaded_dms nick_a (thread_query tie' (users s) (direct_messages s) b a))]))"
proof (intro conjI impI)
  show "sorted (map row_timestamp (thread_query tie us dms a b))"
    by (rule thread_query_sorted)
  show "mset (thread_query tie us dms a b) = mset (thread_query tie' us dms b a)"
    by (simp only: thread_query_mset thread_rows_commute [of us dms b a])
next
  assume apart: "distinct (map row_timestamp (thread_rows us dms a b))"
  then have "distinct (map row_timestamp (thread_rows us dms b a))"
    by (simp only: thread_rows_commute [of us dms b a])
  then have "thread_query tie' us dms b a = sort_key row_timestamp (thread_rows us dms a b)"
    by (simp only: thread_query_distinct_timestamps thread_rows_commute [of us dms b a])
  with apart show "thread_query tie us dms a b = thread_query tie' us dms b a"
    by (simp only: thread_query_distinct_timestamps)
next
  assume "distinct (map user_id us) \<and>
    (\<forall>d\<in>set dms. sender_id d \<in> user_id ` set us \<and> receiver_id d \<in> user_id ` set us)"
  then show "mset (map row_id (thread_query tie us dms a b)) =
        mset (map dm_id
          (filter (\<lambda>d. (sender_id d = a \<and> receiver_id d = b) \<or> (sender_id d = b \<and> receiver_id d = a)) dms))"
    using thread_query_ids by blast
next
  assume "distinct (map user_id us) \<and>
    (\<forall>d\<in>set dms. sender_id d \<in> user_id ` set us \<and> receiver_id d \<in> user_id ` set us)"
    and "distinct (map dm_timestamp
          (filter (\<lambda>d. (sender_id d = a \<and> receiver_id d = b) \<or> (sender_id d = b \<and> receiver_id d = a)) dms))"
  then show "map row_id (thread_query tie us dms a b) =
          map dm_id (sort_key dm_timestamp
            (filter (\<lambda>d. (sender_id d = a \<and> receiver_id d = b) \<or> (sender_id d = b \<and> receiver_id d = a)) dms))"
    using thread_query_ids_in_order by blast
next
  assume h: "a \<noteq> [] \<and> b \<noteq> [] \<and>
    select_by_nickname (users s) nick_a = Some row_a \<and> user_id row_a = a \<and>
    select_by_nickname (users s) nick_b = Some row_b \<and> user_id row_b = b"
  then show "load_dms None tie nick_b (Some a) s =
        (s, [Socket_emit (Loaded_dms nick_b (thread_query tie (users s) (direct_messages s) a b))])"
    by (simp add: load_dms_def)
  from h show "load_dms None tie' nick_a (Some b) s =
        (s, [Socket_emit (Loaded_dms nick_a (thread_query tie' (users s) (direct_messages s) b a))])"
    by (simp add: load_dms_def)
qed

lemma chat_tables:
  "users chat = [alice_row, bob_row]"
  "map dm_id (direct_messages chat) = [1, 2]"
  "map sender_id (direct_messages chat) = [''u1'', ''u2'']"
  "map receiver_id (direct_messages chat) = [''u2'', ''u1'']"
  "map dm_timestamp (direct_messages chat) = [7, 7]"
  by (simp_all add: chat_def two_users_def initial_server_def)

lemma chat_apart_tables:
  "users chat_apart = [alice_row, bob_row]"
  "map dm_id (direct_messages chat_apart) = [1, 2]"
  "map sender_id (direct_messages chat_apart) = [''u1'', ''u2'']"
  "map receiver_id (direct_messages chat_apart) = [''u2'', ''u1'']"
  "map dm_timestamp (direct_messages chat_apart) = [7, 9]"
  by (simp_all add: chat_apart_def two_users_def initial_server_def)

theorem load_thread_symmetric_ordered_witness:
  "distinct (map user_id (users chat_apart)) \<and>
   map dm_timestamp (direct_messages chat_apart) = [7, 9] \<and>
   thread_query by_id (users chat_apart) (direct_messages chat_apart) ''u1'' ''u2'' =
     thread_query by_id_descending (users chat_apart) (direct_messages chat_apart) ''u2'' ''u1'' \<and>
   map row_id (thread_query by_id (users chat_apart) (direct_messages chat_apart) ''u1'' ''u2'') = [1, 2] \<and>
   select_by_nickname (users chat_apart) ''alice'' = Some alice_row \<and>
   select_by_nickname (users chat_apart) ''bob'' = Some bob_row \<and>
   load_dms None by_id ''bob'' (Some ''u1'') chat_apart =
     (chat_apart, [Socket_emit (Loaded_dms ''bob''
        (thread_query by_id (users chat_apart) (direct_messages chat_apart) ''u1'' ''u2''))]) \<and>
   load_dms None by_id_descending ''alice'' (Some ''u2'') chat_apart =
     (chat_apart, [Socket_emit (Loaded_dms ''alice''
        (thread_query by_id_descending (users chat_apart) (direct_messages chat_apart) ''u2'' ''u1''))])"
proof -
  note t = load_thread_symmetric_ordered [where us = "users chat_apart"
      and dms = "direct_messages chat_apart" and tie = by_id and tie' = by_id_descending
      and a = "''u1''" and b = "''u2''" and s = chat_apart and nick_a = "''alice''"
      and nick_b = "''bob''" and row_a = alice_row and row_b = bob_row]
  have key: "distinct (map user_id (users chat_apart))"
    by (simp add: chat_apart_tables alice_row_def bob_row_def)
  have refs: "\<forall>d\<in>set (direct_messages chat_apart).
      sender_id d \<in> user_id ` set (users chat_apart) \<and> receiver_id d \<in> user_id ` set (users chat_apart)"
    by (simp add: chat_apart_def two_users_def initial_server_def alice_row_def bob_row_def)
  have na: "select_by_nickname (users chat_apart) ''alice'' = Some alice_row"
    by (simp add: chat_apart_tables select_by_nickname_def alice_row_def)
  have nb: "select_by_nickname (users chat_apart) ''bob'' = Some bob_row"
    by (simp add: chat_apart_tables select_by_nickname_def alice_row_def bob_row_def)
  have ids: "user_id alice_row = ''u1''" "user_id bob_row = ''u2''"
    by (simp_all add: alice_row_def bob_row_def)
  have rows_apart: "distinct (map row_timestamp
      (thread_rows (users chat_apart) (direct_messages chat_apart) ''u1'' ''u2''))"
    by (simp add: thread_rows_def chat_apart_def two_users_def initial_server_def
        alice_row_def bob_row_def)
  have apart: "distinct (map dm_timestamp
          (filter (\<lambda>d. (sender_id d = ''u1'' \<and> receiver_id d = ''u2'') \<or>
                        (sender_id d = ''u2'' \<and> receiver_id d = ''u1'')) (direct_messages chat_apart)))"
    by (simp add: chat_apart_def two_users_def initial_server_def)
  have sorted_ids: "map dm_id (sort_key dm_timestamp
          (filter (\<lambda>d. (sender_id d = ''u1'' \<and> receiver_id d = ''u2'') \<or>
                        (sender_id d = ''u2'' \<and> receiver_id d = ''u1'')) (direct_messages chat_apart))) = [1, 2]"
    by (simp add: chat_apart_def two_users_def initial_server_def)
  have same: "thread_query by_id (users chat_apart) (direct_messages chat_apart) ''u1'' ''u2'' =
     thread_query by_id_descending (users chat_apart) (direct_messages chat_apart) ''u2'' ''u1''"
    using t [THEN conjunct2, THEN conjunct2, THEN conjunct1] rows_apart by (rule mp)
  have "map row_id (thread_query by_id (users chat_apart) (direct_messages chat_apart) ''u1'' ''u2'') =
     map dm_id (sort_key dm_timestamp
          (filter (\<lambda>d. (sender_id d = ''u1'' \<and> receiver_id d = ''u2'') \<or>
                        (sender_id d = ''u2'' \<and> receiver_id d = ''u1'')) (direct_messages chat_apart)))"
    using t [THEN conjunct2, THEN conjunct2, THEN conjunct2, THEN conjunct1] key refs apart
    by blast
  with sorted_ids
  have fwd: "map row_id (thread_query by_id (users chat_apart) (direct_messages chat_apart) ''u1'' ''u2'') =
     [1, 2]"
    by (simp only:)
  have handlers: "load_dms None by_id ''bob'' (Some ''u1'') chat_apart =
     (chat_apart, [Socket_emit (Loaded_dms ''bob''
        (thread_query by_id (users chat_apart) (direct_messages chat_apart) ''u1'' ''u2''))]) \<and>
   load_dms None by_id_descending ''alice'' (Some ''u2'') chat_apart =
     (chat_apart, [Socket_emit (Loaded_dms ''alice''
        (thread_query by_id_descending (users chat_apart) (direct_messages chat_apart) ''u2'' ''u1''))])"
    using t [THEN conjunct2, THEN conjunct2, THEN conjunct2, THEN conjunct2] na nb ids by simp
  from key chat_apart_tables(5) same fwd na nb handlers show ?thesis
    by blast
qed

lemma current_nickname_iff:
  assumes "distinct (map user_id us)"
  shows "current_nickname us q = Some nick \<longleftrightarrow> (\<exists>u\<in>set us. user_id u = q \<and> nickname u = nick)"
proof
  assume "current_nickname us q = Some nick"
  then obtain u where "select_user us q = Some u" "nickname u = nick"
    by (auto simp: current_nickname_def)
  then show "\<exists>u\<in>set us. user_id u = q \<and> nickname u = nick"
    using select_user_Some by blast
next
  assume "\<exists>u\<in>set us. user_id u = q \<and> nickname u = nick"
  then obtain u where "u \<in> set us" "user_id u = q" "nickname u = nick"
    by blast
  with assms show "current_nickname us q = Some nick"
    using select_user_key [of us u] by (simp add: current_nickname_def)
qed

lemma thread_rows_current:
  assumes "distinct (map user_id us)" "r \<in> set (thread_query tie us dms a b)"
  shows "\<exists>d\<in>set dms. row_id r = dm_id d \<and>
         current_nickname us (sender_id d) = Some (sender_nickname r) \<and>
         current_nickname us (receiver_id d) = Some (receiver_nickname r)"
proof -
  from assms(2) obtain d where d: "d \<in> set dms"
    and r: "r \<in> set (case select_user us (sender_id d) of
         None \<Rightarrow> []
       | Some sender \<Rightarrow>
           (case select_user us (receiver_id d) of
              None \<Rightarrow> []
            | Some receiver \<Rightarrow>
                if (sender_id d = a \<and> receiver_id d = b) \<or> (sender_id d = b \<and> receiver_id d = a)
                then [\<lparr>row_id = dm_id d, row_message = dm_message d, row_type = dm_type d,
                       row_timestamp = dm_timestamp d,
                       sender_nickname = nickname sender, receiver_nickname = nickname receiver\<rparr>]
                else []))"
    unfolding thread_query_set thread_rows_lookup [OF assms(1)] by auto
  from r have "\<exists>su ru. select_user us (sender_id d) = Some su \<and>
      select_user us (receiver_id d) = Some ru \<and>
      r = \<lparr>row_id = dm_id d, row_message = dm_message d, row_type = dm_type d,
             row_timestamp = dm_timestamp d,
             sender_nickname = nickname su, receiver_nickname = nickname ru\<rparr>"
    by (cases "select_user us (sender_id d)"; cases "select_user us (receiver_id d)")
       (auto split: if_splits)
  then obtain su ru where "select_user us (sender_id d) = Some su"
      "select_user us (receiver_id d) = Some ru"
      "r = \<lparr>row_id = dm_id d, row_message = dm_message d, row_type = dm_type d,
             row_timestamp = dm_timestamp d,
             sender_nickname = nickname su, receiver_nickname = nickname ru\<rparr>"
    by blast
  then have "row_id r = dm_id d \<and>
         current_nickname us (sender_id d) = Some (sender_nickname r) \<and>
         current_nickname us (receiver_id d) = Some (receiver_nickname r)"
    by (simp add: current_nickname_def)
  with d show ?thesis ..
qed

lemma partner_query_current:
  assumes "distinct (map user_id us)"
  shows "set (partner_query rank us dms p) =
       {nick. \<exists>d\<in>set dms. \<exists>q. ((sender_id d = p \<and> receiver_id d = q) \<or>
                                    (receiver_id d = p \<and> sender_id d = q)) \<and>
                                   current_nickname us q = Some nick}"
proof (intro set_eqI iffI)
  fix nick
  assume "nick \<in> set (partner_query rank us dms p)"
  then have "\<exists>u\<in>set us. nickname u = nick \<and>
        ((\<exists>d\<in>set dms. sender_id d = p \<and> receiver_id d = user_id u) \<or>
         (\<exists>d\<in>set dms. receiver_id d = p \<and> sender_id d = user_id u))"
    by (auto simp: partner_query_def) metis+
  then obtain u where u: "u \<in> set us" "nickname u = nick"
    and "(\<exists>d\<in>set dms. sender_id d = p \<and> receiver_id d = user_id u) \<or>
         (\<exists>d\<in>set dms. receiver_id d = p \<and> sender_id d = user_id u)"
    by blast
  then obtain d where "d \<in> set dms"
      "(sender_id d = p \<and> receiver_id d = user_id u) \<or> (receiver_id d = p \<and> sender_id d = user_id u)"
    by blast
  moreover from u have "current_nickname us (user_id u) = Some nick"
    unfolding current_nickname_iff [OF assms] by blast
  ultimately show "nick \<in> {nick. \<exists>d\<in>set dms. \<exists>q. ((sender_id d = p \<and> receiver_id d = q) \<or>
                                    (receiver_id d = p \<and> sender_id d = q)) \<and>
                                   current_nickname us q = Some nick}"
    by blast
next
  fix nick
  assume "nick \<in> {nick. \<exists>d\<in>set dms. \<exists>q. ((sender_id d = p \<and> receiver_id d = q) \<or>
                                    (receiver_id d = p \<and> sender_id d = q)) \<and>
                                   current_nickname us q = Some nick}"
  then obtain d q where d: "d \<in> set dms"
      "(sender_id d = p \<and> receiver_id d = q) \<or> (receiver_id d = p \<and> sender_id d = q)"
    and "current_nickname us q = Some nick"
    by blast
  then obtain u where u: "u \<in> set us" "user_id u = q" "nickname u = nick"
    unfolding current_nickname_iff [OF assms] by blast
  have "user_id u \<in> set ([receiver_id d. d \<leftarrow> dms, sender_id d = p] @
                            [sender_id d. d \<leftarrow> dms, receiver_id d = p])"
  proof (cases "sender_id d = p \<and> receiver_id d = q")
    case True
    with d(1) have "receiver_id d \<in> set [receiver_id d. d \<leftarrow> dms, sender_id d = p]"
      by force
    with True u(2) show ?thesis by simp
  next
    case False
    with d(2) have other: "receiver_id d = p" "sender_id d = q" by auto
    with d(1) have "sender_id d \<in> set [sender_id d. d \<leftarrow> dms, receiver_id d = p]"
      by force
    with other u(2) show ?thesis by simp
  qed
  with u show "nick \<in> set (partner_query rank us dms p)"
    by (auto simp: partner_query_def)
qed

lemma global_message_snapshot:
  assumes "uid \<noteq> []" "map_of (onlineUsers s) uid = Some info"
  shows "last (globalMessages (fst (global_message now body kind (Some uid) s))) =
     message_of uid (info_nickname info) (now, body, kind)"
proof (cases "globalMessages s")
  case Nil
  with assms show ?thesis by (simp add: global_message_present)
next
  case (Cons m ms)
  with assms show ?thesis by (simp add: global_message_present)
qed

text \<open>
  C10.  \<open>get_dm_partners\<close> and \<open>load_dms\<close> answer with the partner query and the
  thread query run on the tables as they are at the request.  With \<open>user_id\<close> a key
  of \<open>users\<close>, and whatever order the store chooses: every row that the thread query returns
  carries, as sender and receiver nickname, the nicknames that the table holds at the
  time of the query for the sender and the receiver of the message; and the partner
  query returns the nicknames that the table holds for the users with whom \<open>p\<close> has
  exchanged a message.  A successful \<open>change_nickname\<close> makes the table hold the new
  nickname for that user, and for nobody else a different one than before, so both
  queries answer with it from then on.  It leaves the direct messages and the feed as
  they were: a feed entry keeps the \<open>senderNickname\<close> that \<open>global_message\<close> copied
  from the presence entry when the message was sent.
\<close>

theorem dm_nicknames_are_current:
  "distinct (map user_id us) \<Longrightarrow>
     (\<forall>r\<in>set (thread_query tie us dms a b). \<exists>d\<in>set dms. row_id r = dm_id d \<and>
         current_nickname us (sender_id d) = Some (sender_nickname r) \<and>
         current_nickname us (receiver_id d) = Some (receiver_nickname r)) \<and>
     set (partner_query rank us dms p) =
       {nick. \<exists>d\<in>set dms. \<exists>q. ((sender_id d = p \<and> receiver_id d = q) \<or>
                                    (receiver_id d = p \<and> sender_id d = q)) \<and>
                                   current_nickname us q = Some nick} \<and>
     (users s = us \<and> change_nickname sock fault now n cu s = (s', out) \<and>
      Callback (Succeeded u) \<in> set out \<longrightarrow>
        (\<exists>uid. cu = Some uid \<and> current_nickname (users s') uid = Some n \<and>
               (\<forall>q. q \<noteq> uid \<longrightarrow> current_nickname (users s') q = current_nickname us q)) \<and>
        distinct (map user_id (users s')) \<and>
        direct_messages s' = direct_messages s \<and>
        globalMessages s' = globalMessages s) \<and>
     (sender \<noteq> [] \<and> map_of (onlineUsers s) sender = Some info \<longrightarrow>
        senderNickname (last (globalMessages (fst (global_message now body kind (Some sender) s)))) =
          info_nickname info) \<and>
     (reader \<noteq> [] \<longrightarrow>
        get_dm_partners None rank (Some reader) s =
          (s, [Callback (Partners (partner_query rank (users s) (direct_messages s) reader))])) \<and>
     (reader \<noteq> [] \<and> select_by_nickname (users s) target = Some target_row \<longrightarrow>
        load_dms None tie target (Some reader) s =
          (s, [Socket_emit (Loaded_dms target
                 (thread_query tie (users s) (direct_messages s) reader (user_id target_row)))]))"
proof (intro conjI impI ballI)
  fix r
  assume "distinct (map user_id us)" "r \<in> set (thread_query tie us dms a b)"
  then show "\<exists>d\<in>set dms. row_id r = dm_id d \<and>
         current_nickname us (sender_id d) = Some (sender_nickname r) \<and>
         current_nickname us (receiver_id d) = Some (receiver_nickname r)"
    by (rule thread_rows_current)
next
  assume "distinct (map user_id us)"
  then show "set (partner_query rank us dms p) =
       {nick. \<exists>d\<in>set dms. \<exists>q. ((sender_id d = p \<and> receiver_id d = q) \<or>
                                    (receiver_id d = p \<and> sender_id d = q)) \<and>
                                   current_nickname us q = Some nick}"
    by (rule partner_query_current)
next
  assume key: "distinct (map user_id us)"
  assume h: "users s = us \<and> change_nickname sock fault now n cu s = (s', out) \<and>
      Callback (Succeeded u) \<in> set out"
  then have us: "users s = us"
    and call: "change_nickname sock fault now n cu s = (s', out)"
    and ok: "Callback (Succeeded u) \<in> set out"
    by simp_all
  from call ok obtain uid row where cu: "cu = Some uid"
    and row: "select_user (users s) uid = Some row"
    and s': "s' = s\<lparr>users := update_user
                   (\<lambda>u. u\<lparr>nickname := n, change_timestamps := change_timestamps u @ [now]\<rparr>) uid (users s),
               onlineUsers := AList.update uid \<lparr>info_nickname = n, socketId = sock\<rparr> (onlineUsers s)\<rparr>"
    by (rule change_nickname_success)
  have new: "current_nickname (users s') uid = Some n"
    by (simp add: s' current_nickname_def select_user_update_user row)
  have others: "\<forall>q. q \<noteq> uid \<longrightarrow> current_nickname (users s') q = current_nickname us q"
    by (simp add: s' us [symmetric] current_nickname_def select_user_update_other)
  from cu new others
  show "\<exists>uid. cu = Some uid \<and> current_nickname (users s') uid = Some n \<and>
               (\<forall>q. q \<noteq> uid \<longrightarrow> current_nickname (users s') q = current_nickname us q)"
    by blast
  show "distinct (map user_id (users s'))"
    using key by (simp add: s' us [symmetric] user_ids_update_user)
  show "direct_messages s' = direct_messages s"
    by (simp add: s')
  show "globalMessages s' = globalMessages s"
    by (simp add: s')
next
  assume "sender \<noteq> [] \<and> map_of (onlineUsers s) sender = Some info"
  then show "senderNickname (last (globalMessages (fst (global_message now body kind (Some sender) s)))) =
          info_nickname info"
    by (simp add: global_message_snapshot message_of_def)
next
  assume "reader \<noteq> []"
  then show "get_dm_partners None rank (Some reader) s =
          (s, [Callback (Partners (partner_query rank (users s) (direct_messages s) reader))])"
    by (simp add: get_dm_partners_def)
next
  assume "reader \<noteq> [] \<and> select_by_nickname (users s) target = Some target_row"
  then show "load_dms None tie target (Some reader) s =
          (s, [Socket_emit (Loaded_dms target
                 (thread_query tie (users s) (direct_messages s) reader (user_id target_row)))])"
    by (simp add: load_dms_def)
qed

lemma chat_renamed_value:
  "chat_renamed =
     (chat\<lparr>users := [alice_row\<lparr>nickname := ''carol'', change_timestamps := [50]\<rparr>, bob_row],
         onlineUsers := [(''u1'', \<lparr>info_nickname = ''carol'', socketId = ''s1''\<rparr>), (''u2'', bob_info)]\<rparr>,
      [Io_emit (Nickname_changed ''alice'' ''carol''), Io_emit (Online_users_update [''u1'', ''u2'']),
       Callback (Succeeded (alice_row\<lparr>nickname := ''carol'', change_timestamps := [50]\<rparr>))])"
  by (simp add: chat_renamed_def change_nickname_def select_user_def update_user_def
      nickname_taken_by_other_def chat_def two_users_def initial_server_def alice_row_def bob_row_def
      alice_info_def Let_def oneWeek_def)

theorem dm_nicknames_are_current_witness:
  "distinct (map user_id (users chat)) \<and>
   current_nickname (users chat) ''u1'' = Some ''alice'' \<and>
   Callback (Succeeded (alice_row\<lparr>nickname := ''carol'', change_timestamps := [50]\<rparr>)) \<in>
     set (snd chat_renamed) \<and>
   current_nickname (users (fst chat_renamed)) ''u1'' = Some ''carol'' \<and>
   map sender_nickname
     (thread_query by_id (users (fst chat_renamed)) (direct_messages (fst chat_renamed)) ''u1'' ''u2'') =
     [''carol'', ''bob''] \<and>
   map receiver_nickname
     (thread_query by_id (users (fst chat_renamed)) (direct_messages (fst chat_renamed)) ''u1'' ''u2'') =
     [''bob'', ''carol''] \<and>
   partner_query as_found (users (fst chat_renamed)) (direct_messages (fst chat_renamed)) ''u2'' = [''carol''] \<and>
   map senderNickname (globalMessages (fst chat_renamed)) = [''alice'']"
proof -
  have key: "distinct (map user_id (users chat))"
    by (simp add: chat_tables alice_row_def bob_row_def)
  have before: "current_nickname (users chat) ''u1'' = Some ''alice''"
    by (simp add: chat_tables current_nickname_def select_user_def alice_row_def)
  have ok: "Callback (Succeeded (alice_row\<lparr>nickname := ''carol'', change_timestamps := [50]\<rparr>)) \<in>
     set (snd chat_renamed)"
    by (simp add: chat_renamed_value)
  have call: "change_nickname ''s1'' None 50 ''carol'' (Some ''u1'') chat =
     (fst chat_renamed, snd chat_renamed)"
    by (simp add: chat_renamed_def)
  note t = dm_nicknames_are_current [OF key, THEN conjunct2, THEN conjunct2, THEN conjunct1,
      rule_format, OF conjI [OF refl conjI [OF call ok]]]
  from t have "\<exists>uid. Some ''u1'' = Some uid \<and>
      current_nickname (users (fst chat_renamed)) uid = Some ''carol'' \<and>
      (\<forall>q. q \<noteq> uid \<longrightarrow> current_nickname (users (fst chat_renamed)) q = current_nickname (users chat) q)"
    by (rule conjunct1)
  then have after: "current_nickname (users (fst chat_renamed)) ''u1'' = Some ''carol''"
    by auto
  from t have "globalMessages (fst chat_renamed) = globalMessages chat"
    by simp
  then have feed: "map senderNickname (globalMessages (fst chat_renamed)) = [''alice'']"
    by (simp add: chat_def)
  have senders: "map sender_nickname
     (thread_query by_id (users (fst chat_renamed)) (direct_messages (fst chat_renamed)) ''u1'' ''u2'') =
     [''carol'', ''bob'']"
    by (simp add: chat_renamed_value thread_query_def thread_rows_def by_id_def chat_def two_users_def
        initial_server_def alice_row_def bob_row_def)
  have receivers: "map receiver_nickname
     (thread_query by_id (users (fst chat_renamed)) (direct_messages (fst chat_renamed)) ''u1'' ''u2'') =
     [''bob'', ''carol'']"
    by (simp add: chat_renamed_value thread_query_def thread_rows_def by_id_def chat_def two_users_def
        initial_server_def alice_row_def bob_row_def)
  have partners: "partner_query as_found (users (fst chat_renamed)) (direct_messages (fst chat_renamed)) ''u2'' =
     [''carol'']"
    by (simp add: chat_renamed_value partner_query_def as_found_def chat_def two_users_def
        initial_server_def alice_row_def bob_row_def)
  from key before ok after senders receivers partners feed show ?thesis
    by blast
qed

section \<open>The nickname-keyed draft\<close>

text \<open>
  The nickname-keyed draft: the feed grows with every message, and any connection
  deletes any message.
\<close>

lemma legacy_feed_grows:
  "length (fst (legacy_global_message now data_sender data_message data_type feed)) =
     Suc (length feed)"
  by (simp add: legacy_global_message_def Let_def)

lemma legacy_delete_unguarded:
  "fst (legacy_delete_global_message messageId feed) = filter (\<lambda>msg. lm_id msg \<noteq> messageId) feed"
  by (simp add: legacy_delete_global_message_def Let_def)

end
